theory Spec2Isabelle
  imports Complex_Main
begin

section \<open>The chunker (\<^verbatim>\<open>chunkText\<close> in \<^verbatim>\<open>src/services/ragService.ts\<close>)\<close>

text \<open>
  A JavaScript string is a sequence of UTF-16 code units. The chunker only measures and
  slices its text and never inspects a unit, so the model is polymorphic in the unit type;
  concrete examples use \<^typ>\<open>string\<close>. The numeric parameters are modelled as integers
  (\<^verbatim>\<open>number\<close> values without a fractional part), negative values included.

  \<^verbatim>\<open>slice(start, end)\<close> of strings and arrays: a negative index counts from the end,
  both indices are clamped to the sequence, and the result is empty when the clamped
  start is not before the clamped end.
\<close>

definition slice :: "'a list \<Rightarrow> int \<Rightarrow> int \<Rightarrow> 'a list" where
  "slice xs start end =
     (let len = int (length xs);
          from = (if start < 0 then max (len + start) 0 else min start len);
          to = (if end < 0 then max (len + end) 0 else min end len)
      in take (nat (to - from)) (drop (nat from) xs))"

text \<open>
  The \<^verbatim>\<open>while\<close> loop of \<^verbatim>\<open>chunkText\<close>. Nothing in the source bounds the number of
  iterations, so the loop is a partial function: \<^term>\<open>None\<close> is a run that never returns.
  \<^verbatim>\<open>
  while (i < text.length) {
      const end = Math.min(i + chunkSize, text.length);
      chunks.push(text.slice(i, end));
      i += chunkSize - overlap;
      if (i + overlap >= text.length) { i = text.length; }
  }
  return chunks;
  \<close>
\<close>

partial_function (option) chunk_loop ::
  "'a list \<Rightarrow> int \<Rightarrow> int \<Rightarrow> int \<Rightarrow> 'a list list \<Rightarrow> 'a list list option" where
  "chunk_loop text chunkSize overlap i chunks =
     (if i < int (length text) then
        (let end = min (i + chunkSize) (int (length text));
             chunks' = chunks @ [slice text i end];
             i' = i + (chunkSize - overlap);
             i'' = (if i' + overlap \<ge> int (length text) then int (length text) else i')
         in chunk_loop text chunkSize overlap i'' chunks')
      else Some chunks)"

declare chunk_loop.simps [code]

definition chunkText :: "'a list \<Rightarrow> int \<Rightarrow> int \<Rightarrow> 'a list list option" where
  "chunkText text chunkSize overlap = chunk_loop text chunkSize overlap 0 []"

text \<open>
  A list of spans \<open>(start, end)\<close> that begins at cursor \<open>i\<close> and reaches the end \<open>n\<close> of
  the text: every span is non-empty and inside the text, the next span starts after the
  start of the previous one and not after its end, and the last span ends at \<open>n\<close>.
  The predicate serves the proofs; it is not part of the program.
\<close>

fun spans_from :: "int \<Rightarrow> int \<Rightarrow> (int \<times> int) list \<Rightarrow> bool" where
  "spans_from i n [] = (n \<le> i)"
| "spans_from i n ((s, e) # rest) =
     (s = i \<and> 0 \<le> s \<and> s < e \<and> e \<le> n \<and>
      (case rest of [] \<Rightarrow> e = n
       | (s', _) # _ \<Rightarrow> s < s' \<and> s' \<le> e \<and> spans_from s' n rest))"

section \<open>Strings and thrown values\<close>

text \<open>
  Where the program inspects its strings they are modelled as \<^typ>\<open>string\<close>, that is
  over code units below 256. The functions below are the JavaScript string operations
  the source uses: \<^verbatim>\<open>includes\<close>, \<^verbatim>\<open>split\<close>, \<^verbatim>\<open>trim\<close>, \<^verbatim>\<open>startsWith\<close>,
  \<^verbatim>\<open>join\<close>, \<^verbatim>\<open>a || b\<close> on strings and the decimal rendering of a non-negative integer
  in a template literal. An optional string is truthy when it is present and not empty.
\<close>

fun str_includes :: "'a list \<Rightarrow> 'a list \<Rightarrow> bool" where
  "str_includes [] sub = (sub = [])"
| "str_includes (c # s) sub = (take (length sub) (c # s) = sub \<or> str_includes s sub)"

fun split_on :: "'a \<Rightarrow> 'a list \<Rightarrow> 'a list list" where
  "split_on sep [] = [[]]"
| "split_on sep (c # cs) =
     (if c = sep then [] # split_on sep cs
      else (case split_on sep cs of
              piece # pieces \<Rightarrow> (c # piece) # pieces
            | [] \<Rightarrow> [[c]]))"

definition isWhiteSpace :: "char \<Rightarrow> bool" where
  "isWhiteSpace c = (of_char c \<in> {9, 10, 11, 12, 13, 32, 160 :: nat})"

definition trim :: "string \<Rightarrow> string" where
  "trim s = rev (dropWhile isWhiteSpace (rev (dropWhile isWhiteSpace s)))"

definition startsWith :: "'a list \<Rightarrow> 'a list \<Rightarrow> bool" where
  "startsWith s p = (take (length p) s = p)"

fun join :: "'a list \<Rightarrow> 'a list list \<Rightarrow> 'a list" where
  "join sep [] = []"
| "join sep [x] = x"
| "join sep (x # y # ys) = x @ sep @ join sep (y # ys)"

definition or_else :: "string option \<Rightarrow> string \<Rightarrow> string" where
  "or_else v d = (case v of None \<Rightarrow> d | Some s \<Rightarrow> if s = [] then d else s)"

definition digit :: "nat \<Rightarrow> char" where
  "digit d = char_of (48 + d)"

fun decimal :: "nat \<Rightarrow> string" where
  "decimal n = (if n < 10 then [digit n] else decimal (n div 10) @ [digit (n mod 10)])"

declare decimal.simps [simp del]

text \<open>
  A value caught by a \<^verbatim>\<open>catch\<close> clause, by what the program can observe of it:
  \<^item> \<open>JsError m\<close>: an instance of \<^verbatim>\<open>Error\<close> with message \<open>m\<close> and no HTTP status;
  \<^item> \<open>StatusError m st\<close>: an instance of \<^verbatim>\<open>Error\<close> with message \<open>m\<close> that also
    carries the HTTP status \<open>st\<close> in its \<^verbatim>\<open>status\<close> property, as the errors of the
    Gemini SDK and of HTTP clients do;
  \<^item> \<open>HttpResponse st\<close>: a \<^verbatim>\<open>Response\<close> object (it has no \<^verbatim>\<open>message\<close> property)
    with HTTP status \<open>st\<close>;
  \<^item> \<open>OtherValue m r\<close>: any other value, with its \<^verbatim>\<open>message\<close> property when that is
    a string, and its rendering \<^verbatim>\<open>String(value)\<close>.
\<close>

datatype thrown =
    JsError string
  | StatusError string nat
  | HttpResponse nat
  | OtherValue "string option" string

text \<open>\<^verbatim>\<open>error && typeof error.message === 'string'\<close>, giving the message.\<close>

fun stringMessage :: "thrown \<Rightarrow> string option" where
  "stringMessage (JsError m) = Some m"
| "stringMessage (StatusError m st) = Some m"
| "stringMessage (HttpResponse st) = None"
| "stringMessage (OtherValue m r) = m"


text \<open>\<^verbatim>\<open>String(error)\<close>, used for values that are not instances of \<^verbatim>\<open>Error\<close>.\<close>

fun String_of :: "thrown \<Rightarrow> string" where
  "String_of (JsError m) = ''Error: '' @ m"
| "String_of (StatusError m st) = ''Error: '' @ m"
| "String_of (HttpResponse st) = ''[object Response]''"
| "String_of (OtherValue m r) = r"


section \<open>The retry executor (\<^verbatim>\<open>withRetry\<close>, \<^verbatim>\<open>fetchWithRetry\<close>)\<close>

text \<open>
  The classification computed at the head of the \<^verbatim>\<open>catch\<close> clause of \<^verbatim>\<open>withRetry\<close>:
  \<^verbatim>\<open>
  if (error && typeof error.message === 'string') {
      errorMessage = error.message;
      if (errorMessage.includes('429') || errorMessage.includes('RESOURCE_EXHAUSTED'))
          isRateLimitError = true;
  } else if (error instanceof Response && (error.status === 429 || error.status === 503)) {
      isRateLimitError = true;
  }
  \<close>
\<close>

definition isRateLimitError :: "thrown \<Rightarrow> bool" where
  "isRateLimitError error =
     (case stringMessage error of
        Some errorMessage \<Rightarrow>
          str_includes errorMessage ''429'' \<or> str_includes errorMessage ''RESOURCE_EXHAUSTED''
      | None \<Rightarrow>
          (case error of
             HttpResponse st \<Rightarrow> st = 429 \<or> st = 503
           | _ \<Rightarrow> False))"


text \<open>
  The effects of \<^verbatim>\<open>withRetry\<close>: how often the operation has been invoked, how many
  values \<^verbatim>\<open>Math.random()\<close> has produced, and the delays (in milliseconds) awaited
  through \<^verbatim>\<open>setTimeout\<close>, in order. The operation is given by the outcome of its
  \<open>k\<close>-th invocation (counting from 0), \<^verbatim>\<open>Math.random()\<close> by its \<open>k\<close>-th value. Delays
  are real numbers.
\<close>

record retry_state =
  calls :: nat
  randoms :: nat
  slept :: "real list"

definition fresh :: retry_state where
  "fresh = \<lparr>calls = 0, randoms = 0, slept = []\<rparr>"

function withRetry_loop ::
  "(nat \<Rightarrow> thrown + 'a) \<Rightarrow> (nat \<Rightarrow> real) \<Rightarrow> int \<Rightarrow> real \<Rightarrow> nat \<Rightarrow> retry_state
     \<Rightarrow> (thrown + 'a) \<times> retry_state" where
  "withRetry_loop apiCall random maxRetries initialDelay attempt s =
     (if int attempt < maxRetries then
        (let s1 = s\<lparr>calls := calls s + 1\<rparr> in
         case apiCall (calls s) of
           Inr result \<Rightarrow> (Inr result, s1)
         | Inl error \<Rightarrow>
             if isRateLimitError error then
               if int attempt + 1 \<ge> maxRetries then (Inl error, s1)
               else
                 (let delay = initialDelay * 2 ^ attempt + random (randoms s1) * 1000;
                      s2 = s1\<lparr>randoms := randoms s1 + 1, slept := slept s1 @ [delay]\<rparr>
                  in withRetry_loop apiCall random maxRetries initialDelay (attempt + 1) s2)
             else (Inl error, s1))
      else (Inl (JsError ''API request failed to complete after all retries.''), s))"
  by pat_completeness auto
termination
  by (relation "measure (\<lambda>(apiCall, random, maxRetries, initialDelay, attempt, s).
        nat (maxRetries - int attempt))") auto

declare withRetry_loop.simps [simp del]

definition withRetry ::
  "(nat \<Rightarrow> thrown + 'a) \<Rightarrow> (nat \<Rightarrow> real) \<Rightarrow> int \<Rightarrow> real \<Rightarrow> retry_state
     \<Rightarrow> (thrown + 'a) \<times> retry_state" where
  "withRetry apiCall random maxRetries initialDelay s =
     withRetry_loop apiCall random maxRetries initialDelay 0 s"

text \<open>
  An HTTP response as the program reads it: the status, the outcome of
  \<^verbatim>\<open>response.text()\<close>, and the body, absent or a stream given by the successive outcomes
  of \<^verbatim>\<open>reader.read()\<close> (decoded text, or a failure), the end of the list being
  \<^verbatim>\<open>done\<close>.
\<close>

record response =
  status :: nat
  responseText :: "thrown + string"
  body :: "(thrown + string) list option"

definition ok :: "response \<Rightarrow> bool" where
  "ok r = (200 \<le> status r \<and> status r \<le> 299)"

text \<open>The operation that \<^verbatim>\<open>fetchWithRetry\<close> hands to \<^verbatim>\<open>withRetry\<close>, on one outcome of \<^verbatim>\<open>fetch\<close>.\<close>

definition fetchAttempt :: "thrown + response \<Rightarrow> thrown + response" where
  "fetchAttempt outcome =
     (case outcome of
        Inl error \<Rightarrow> Inl error
      | Inr r \<Rightarrow> if status r = 429 then Inl (JsError ''429 Too Many Requests'') else Inr r)"

definition fetchWithRetry ::
  "(nat \<Rightarrow> 'req \<Rightarrow> thrown + response) \<Rightarrow> 'req \<Rightarrow> (nat \<Rightarrow> real) \<Rightarrow> int \<Rightarrow> real \<Rightarrow> retry_state
     \<Rightarrow> (thrown + response) \<times> retry_state" where
  "fetchWithRetry fetch request random maxRetries initialDelay s =
     withRetry (\<lambda>k. fetchAttempt (fetch k request)) random maxRetries initialDelay s"


section \<open>History normalization (\<^verbatim>\<open>normalizeGeminiHistory\<close>)\<close>

text \<open>
  A chat message as the normalization reads it. The declaration of \<^verbatim>\<open>Message\<close>
  (\<^verbatim>\<open>types.ts\<close>) is not among the sources; the fields are those the code reads. A role
  other than \<open>user\<close>, \<open>model\<close> and \<open>narrator\<close> is kept with its name, since the code
  filters such messages out. An optional string is falsy when absent or empty.
\<close>

datatype role = User | Model | Narrator | OtherRole string

record attachment =
  att_url :: "string option"
  att_status :: string
  att_mimeType :: "string option"

record message =
  msg_role :: role
  msg_content :: string
  msg_attachment :: "attachment option"

text \<open>
  A content part of a Gemini turn: \<^verbatim>\<open>{ text }\<close> or
  \<^verbatim>\<open>{ inlineData: { mimeType, data } }\<close>; a turn is \<^verbatim>\<open>{ role, parts }\<close>.
\<close>

datatype part = TextPart string | InlineData string string

record turn =
  turn_role :: string
  turn_parts :: "part list"

text \<open>
  The function mapped over the relevant messages: the role is \<open>model\<close> or \<open>user\<close>, a
  narrator message gets the prefix \<open>[NARRATOR]: \<close>, the text is a part unless it trims to
  the empty string, and an attachment is a part when it has a URL, its status is
  \<open>done\<close> and the URL has a non-empty second piece after splitting at commas.
\<close>

definition toTurn :: "message \<Rightarrow> turn" where
  "toTurn msg =
     (let role = (if msg_role msg = Model then ''model'' else ''user'');
          textContent = (if msg_role msg = Narrator then ''[NARRATOR]: '' @ msg_content msg
                         else msg_content msg);
          parts = (if trim textContent \<noteq> [] then [TextPart textContent] else []);
          parts' =
            (case msg_attachment msg of
               None \<Rightarrow> parts
             | Some a \<Rightarrow>
                 (case att_url a of
                    None \<Rightarrow> parts
                  | Some url \<Rightarrow>
                      if url \<noteq> [] \<and> att_status a = ''done'' then
                        (case split_on (CHR '','') url of
                           _ # base64Data # _ \<Rightarrow>
                             if base64Data \<noteq> [] then
                               parts @ [InlineData (or_else (att_mimeType a) ''image/png'')
                                          base64Data]
                             else parts
                         | _ \<Rightarrow> parts)
                      else parts))
      in \<lparr>turn_role = role, turn_parts = parts'\<rparr>)"

text \<open>
  The merging loop. The array \<^verbatim>\<open>merged\<close> is never empty inside the loop; it is kept as
  its front and its last element \<open>prev\<close>, the element the loop compares and updates.
  \<^verbatim>\<open>
  merged.push(mapped[0]);
  for (let i = 1; i < mapped.length; i++) {
      const prev = merged[merged.length - 1];
      const curr = mapped[i];
      if (prev.role === curr.role) { prev.parts = [...prev.parts, ...curr.parts]; }
      else { merged.push(curr); }
  }
  \<close>
\<close>

fun merge_loop :: "turn list \<Rightarrow> turn \<Rightarrow> turn list \<Rightarrow> turn list" where
  "merge_loop merged prev [] = merged @ [prev]"
| "merge_loop merged prev (cur # rest) =
     (if turn_role prev = turn_role cur then
        merge_loop merged (prev\<lparr>turn_parts := turn_parts prev @ turn_parts cur\<rparr>) rest
      else merge_loop (merged @ [prev]) cur rest)"

definition isRelevant :: "message \<Rightarrow> bool" where
  "isRelevant msg = (msg_role msg = User \<or> msg_role msg = Model \<or> msg_role msg = Narrator)"

definition normalizeGeminiHistory :: "message list \<Rightarrow> turn list" where
  "normalizeGeminiHistory history =
     (let relevantMessages = filter isRelevant history
      in if relevantMessages = [] then []
         else (let mapped = map toTurn relevantMessages
               in case mapped of
                    [] \<Rightarrow> []
                  | first # rest \<Rightarrow> merge_loop [] first rest))"

text \<open>
  The maximal runs of consecutive turns with the same role, and the single turn a run
  collapses to. These two functions state the property of the merge; they are not part
  of the program.
\<close>

fun runs :: "turn list \<Rightarrow> turn list list" where
  "runs [] = []"
| "runs (t # ts) =
     (case runs ts of
        (u # r) # rs \<Rightarrow>
          if turn_role t = turn_role u then (t # u # r) # rs else [t] # (u # r) # rs
      | _ \<Rightarrow> [[t]])"

definition collapse :: "turn list \<Rightarrow> turn" where
  "collapse run = \<lparr>turn_role = turn_role (hd run), turn_parts = concat (map turn_parts run)\<rparr>"


section \<open>Streaming generation (\<^verbatim>\<open>streamOpenAIChatResponse\<close>, \<^verbatim>\<open>streamGeminiChatResponse\<close>)\<close>

text \<open>
  The fields of \<^verbatim>\<open>ApiConfig\<close> that the streaming functions read, and the request
  that \<^verbatim>\<open>streamOpenAIChatResponse\<close> posts: the URL, the \<^verbatim>\<open>Authorization\<close> header and
  the fields of the JSON body, before serialization.
\<close>

record apiConfig =
  cfg_service :: string
  cfg_apiKey :: "string option"
  cfg_apiEndpoint :: "string option"
  cfg_model :: "string option"

record chat_request =
  req_url :: "string option"
  req_authorization :: string
  req_model :: string
  req_messages :: "(string \<times> string) list"
  req_stream :: bool

text \<open>
  The name of a role, as the string \<^verbatim>\<open>m.role\<close>.
\<close>

fun role_name :: "role \<Rightarrow> string" where
  "role_name User = ''user''"
| "role_name Model = ''model''"
| "role_name Narrator = ''narrator''"
| "role_name (OtherRole r) = r"

text \<open>
  \<^verbatim>\<open>Array.prototype.pop\<close>: the last element, if any, and the array without it.
\<close>

fun pop :: "'a list \<Rightarrow> 'a option \<times> 'a list" where
  "pop [] = (None, [])"
| "pop (x # xs) = (Some (last (x # xs)), butlast (x # xs))"

text \<open>
  The \<^verbatim>\<open>for\<close> loop over the complete lines of one read. The result is \<open>True\<close> when
  the line \<open>data: [DONE]\<close> made the function return, with the chunks delivered so far.
  \<open>deltaContent\<close> stands for \<^verbatim>\<open>JSON.parse(data)\<close> followed by
  \<^verbatim>\<open>json.choices?.[0]?.delta?.content || json.choices?.[0]?.text\<close>: it is \<open>None\<close> when
  parsing throws (the exception is swallowed) or the value is falsy.
  \<^verbatim>\<open>
  for (const line of lines) {
      const trimmed = line.trim();
      if (trimmed.startsWith('data: ')) {
          const data = trimmed.slice(6);
          if (data === '[DONE]') return;
          try { ...; if (content) onChunk(content); } catch (e) { }
      }
  }
  \<close>
\<close>

fun process_lines ::
  "(string \<Rightarrow> string option) \<Rightarrow> string list \<Rightarrow> string list \<Rightarrow> bool \<times> string list" where
  "process_lines deltaContent [] delivered = (False, delivered)"
| "process_lines deltaContent (line # lines) delivered =
     (let trimmed = trim line in
      if startsWith trimmed ''data: '' then
        (let data = drop 6 trimmed in
         if data = ''[DONE]'' then (True, delivered)
         else (case deltaContent data of
                 Some content \<Rightarrow> process_lines deltaContent lines (delivered @ [content])
               | None \<Rightarrow> process_lines deltaContent lines delivered))
      else process_lines deltaContent lines delivered)"

text \<open>
  The \<^verbatim>\<open>while (true)\<close> loop over the reads of the body: the end of the stream ends
  the loop, a failing read throws, and a chunk is appended to the buffer, which is split
  at newlines; the last piece stays in the buffer.
\<close>

fun read_loop ::
  "(string \<Rightarrow> string option) \<Rightarrow> (thrown + string) list \<Rightarrow> string \<Rightarrow> string list
     \<Rightarrow> (thrown + unit) \<times> string list" where
  "read_loop deltaContent [] buffer delivered = (Inr (), delivered)"
| "read_loop deltaContent (Inl error # reads) buffer delivered = (Inl error, delivered)"
| "read_loop deltaContent (Inr v # reads) buffer delivered =
     (case pop (split_on CHR 0x0A (buffer @ v)) of
        (popped, lines) \<Rightarrow>
          (case process_lines deltaContent lines delivered of
             (True, delivered') \<Rightarrow> (Inr (), delivered')
           | (False, delivered') \<Rightarrow>
               read_loop deltaContent reads (or_else popped []) delivered'))"

text \<open>
  The \<^verbatim>\<open>try\<close> block of \<^verbatim>\<open>streamOpenAIChatResponse\<close>: its outcome, the chunks passed to
  \<^verbatim>\<open>onChunk\<close> in order, and the state of the retry executor. \<^verbatim>\<open>fetch\<close> is given by the
  outcome of its \<open>k\<close>-th call on a request.
\<close>

definition streamOpenAI_try ::
  "(nat \<Rightarrow> chat_request \<Rightarrow> thrown + response) \<Rightarrow> (nat \<Rightarrow> real) \<Rightarrow> (string \<Rightarrow> string option)
     \<Rightarrow> apiConfig \<Rightarrow> string \<Rightarrow> message list \<Rightarrow> retry_state
     \<Rightarrow> (thrown + unit) \<times> string list \<times> retry_state" where
  "streamOpenAI_try fetch random deltaContent config systemInstruction history s =
     (let messages =
            (''system'', systemInstruction) #
            map (\<lambda>m. (if msg_role m = Model then ''assistant'' else role_name (msg_role m),
                       msg_content m)) history;
          request = \<lparr>req_url = cfg_apiEndpoint config,
                     req_authorization = ''Bearer '' @ or_else (cfg_apiKey config) ''ollama'',
                     req_model = or_else (cfg_model config) ''llama3'',
                     req_messages = messages,
                     req_stream = True\<rparr>
      in case fetchWithRetry fetch request random 3 2000 s of
           (Inl error, s') \<Rightarrow> (Inl error, [], s')
         | (Inr r, s') \<Rightarrow>
             if \<not> ok r then
               (case responseText r of
                  Inl error \<Rightarrow> (Inl error, [], s')
                | Inr errorText \<Rightarrow>
                    (Inl (JsError (''OpenAI API Error: '' @ decimal (status r) @ '' - '' @ errorText)),
                     [], s'))
             else
               (case body r of
                  None \<Rightarrow> (Inl (JsError ''Response body is null''), [], s')
                | Some reads \<Rightarrow>
                    (case read_loop deltaContent reads [] [] of
                       (outcome, delivered) \<Rightarrow> (outcome, delivered, s'))))"

text \<open>
  The whole function: the \<^verbatim>\<open>catch\<close> clause delivers
  \<^verbatim>\<open>`[Error: ${error instanceof Error ? error.message : String(error)}]`\<close>.
\<close>

definition streamOpenAIChatResponse ::
  "(nat \<Rightarrow> chat_request \<Rightarrow> thrown + response) \<Rightarrow> (nat \<Rightarrow> real) \<Rightarrow> (string \<Rightarrow> string option)
     \<Rightarrow> apiConfig \<Rightarrow> string \<Rightarrow> message list \<Rightarrow> retry_state
     \<Rightarrow> (thrown + unit) \<times> string list \<times> retry_state" where
  "streamOpenAIChatResponse fetch random deltaContent config systemInstruction history s =
     (case streamOpenAI_try fetch random deltaContent config systemInstruction history s of
        (Inr u, delivered, s') \<Rightarrow> (Inr (), delivered, s')
      | (Inl error, delivered, s') \<Rightarrow>
          (Inr (),
           delivered @
             [''[Error: '' @ (case error of JsError m \<Rightarrow> m | StatusError m st \<Rightarrow> m
                             | _ \<Rightarrow> String_of error) @ '']''],
           s'))"

text \<open>
  \<^verbatim>\<open>EmbeddingConfig\<close>, the fields of \<^verbatim>\<open>Character\<close> that the streaming and retrieval
  functions read (an optional field is an \<^typ>\<open>'a option\<close>), and the request that
  \<^verbatim>\<open>streamGeminiChatResponse\<close> hands to \<^verbatim>\<open>ai.models.generateContentStream\<close>: the key of
  the client, the model, the contents and the configuration.
\<close>

record embeddingConfig =
  emb_service :: string
  emb_apiKey :: "string option"
  emb_apiEndpoint :: "string option"
  emb_model :: string

record character =
  char_apiConfig :: "apiConfig option"
  thinkingEnabled :: bool
  searchEnabled :: bool
  char_embeddingConfig :: "embeddingConfig option"
  knowledgeSourceIds :: "string list option"

record gemini_request =
  g_apiKey :: string
  g_model :: string
  g_contents :: "turn list"
  g_systemInstruction :: string
  g_thinkingBudget :: "nat option"
  g_googleSearch :: bool

text \<open>
  \<^verbatim>\<open>defaultAi\<close> and \<^verbatim>\<open>getAiClient\<close>; \<open>API_KEY\<close> is the environment variable read when
  the module is loaded, and the default client exists when it is truthy. A client is
  represented by the key it was created with.
\<close>

definition defaultAi :: "string option \<Rightarrow> string option" where
  "defaultAi API_KEY =
     (case API_KEY of None \<Rightarrow> None | Some key \<Rightarrow> if key \<noteq> [] then Some key else None)"

definition getAiClient :: "string option \<Rightarrow> string option \<Rightarrow> thrown + string" where
  "getAiClient API_KEY apiKey =
     (let fallback =
            (case defaultAi API_KEY of
               Some ai \<Rightarrow> Inr ai
             | None \<Rightarrow> Inl (JsError
                 ''Default Gemini API key not configured. Please set a custom API key for the character or plugin.''))
      in case apiKey of
           None \<Rightarrow> fallback
         | Some key \<Rightarrow> if key \<noteq> [] then Inr key else fallback)"

text \<open>
  The \<^verbatim>\<open>for await\<close> loop over the response stream; an item is the \<^verbatim>\<open>text\<close> of a
  chunk, or a failure of the iteration.
\<close>

fun for_await :: "(thrown + string option) list \<Rightarrow> string list \<Rightarrow> (thrown + unit) \<times> string list" where
  "for_await [] delivered = (Inr (), delivered)"
| "for_await (Inl error # items) delivered = (Inl error, delivered)"
| "for_await (Inr chunk_text # items) delivered =
     for_await items
       (case chunk_text of
          None \<Rightarrow> delivered
        | Some t \<Rightarrow> if t \<noteq> [] then delivered @ [t] else delivered)"

text \<open>
  The \<^verbatim>\<open>try\<close> block of \<^verbatim>\<open>streamGeminiChatResponse\<close>.
\<close>

definition streamGemini_try ::
  "(nat \<Rightarrow> gemini_request \<Rightarrow> thrown + (thrown + string option) list) \<Rightarrow> (nat \<Rightarrow> real)
     \<Rightarrow> string option \<Rightarrow> character \<Rightarrow> string \<Rightarrow> message list \<Rightarrow> retry_state
     \<Rightarrow> (thrown + unit) \<times> string list \<times> retry_state" where
  "streamGemini_try generateContentStream random API_KEY character systemInstruction history s =
     (let customApiKey =
            (case char_apiConfig character of
               Some config \<Rightarrow> if cfg_service config = ''gemini'' then cfg_apiKey config else None
             | None \<Rightarrow> None)
      in case getAiClient API_KEY customApiKey of
           Inl error \<Rightarrow> (Inl error, [], s)
         | Inr ai \<Rightarrow>
             (let contents = normalizeGeminiHistory history in
              if contents = [] then (Inr (), [], s)
              else
                (let request =
                       \<lparr>g_apiKey = ai,
                        g_model = (if thinkingEnabled character then ''gemini-3-pro-preview''
                                   else ''gemini-2.5-flash''),
                        g_contents = contents,
                        g_systemInstruction = systemInstruction,
                        g_thinkingBudget = (if thinkingEnabled character then Some 32768 else None),
                        g_googleSearch = (\<not> thinkingEnabled character \<and> searchEnabled character)\<rparr>
                 in case withRetry (\<lambda>k. generateContentStream k request) random 3 2000 s of
                      (Inl error, s') \<Rightarrow> (Inl error, [], s')
                    | (Inr responseStream, s') \<Rightarrow>
                        (case for_await responseStream [] of
                           (outcome, delivered) \<Rightarrow> (outcome, delivered, s')))))"

text \<open>
  The whole function: the \<^verbatim>\<open>catch\<close> clause delivers
  \<^verbatim>\<open>`Sorry, an error occurred with the Gemini API: ${errorMessage}`\<close>, where the message
  is \<^verbatim>\<open>error.message\<close> for an instance of \<^verbatim>\<open>Error\<close> and \<open>An unknown error occurred.\<close>
  otherwise.
\<close>

definition streamGeminiChatResponse ::
  "(nat \<Rightarrow> gemini_request \<Rightarrow> thrown + (thrown + string option) list) \<Rightarrow> (nat \<Rightarrow> real)
     \<Rightarrow> string option \<Rightarrow> character \<Rightarrow> string \<Rightarrow> message list \<Rightarrow> retry_state
     \<Rightarrow> (thrown + unit) \<times> string list \<times> retry_state" where
  "streamGeminiChatResponse generateContentStream random API_KEY character systemInstruction history s =
     (case streamGemini_try generateContentStream random API_KEY character systemInstruction
             history s of
        (Inr u, delivered, s') \<Rightarrow> (Inr (), delivered, s')
      | (Inl error, delivered, s') \<Rightarrow>
          (Inr (),
           delivered @
             [''Sorry, an error occurred with the Gemini API: '' @
              (case error of JsError m \<Rightarrow> m | StatusError m st \<Rightarrow> m
                | _ \<Rightarrow> ''An unknown error occurred.'')],
           s'))"


section \<open>Indexing and retrieval (\<^verbatim>\<open>processAndIndexFile\<close>, \<^verbatim>\<open>findRelevantContext\<close>)\<close>

text \<open>
  \<^verbatim>\<open>VectorChunk\<close>, \<^verbatim>\<open>RagSource\<close> and the uploaded \<^verbatim>\<open>File\<close>, of which the program uses
  the name, the type and the outcome of reading it as text (\<^verbatim>\<open>readFileAsText\<close>).
  Embeddings are lists of real numbers.
\<close>

record vectorChunk =
  chunk_id :: string
  chunk_sourceId :: string
  chunk_content :: string
  chunk_embedding :: "real list"

record ragSource =
  source_id :: string
  source_fileName :: string
  source_fileType :: string
  source_createdAt :: string

record uploaded_file =
  file_name :: string
  file_type :: string
  file_text :: "thrown + string"

text \<open>
  What the RAG functions do to the outside, in order: a progress string passed to
  \<^verbatim>\<open>onProgress\<close>, a call of \<^verbatim>\<open>embeddingService.generateEmbedding\<close>, a call of
  \<^verbatim>\<open>db.saveVectorChunks\<close>, a call of \<^verbatim>\<open>db.getVectorChunksBySource\<close>. Calls of the logger
  are left out: they have no influence on the control flow.
\<close>

datatype effect =
    Progress string
  | GenerateEmbedding string embeddingConfig
  | SaveVectorChunks "vectorChunk list"
  | GetVectorChunksBySource string

text \<open>
  The effects that are calls of \<^verbatim>\<open>db.saveVectorChunks\<close>; the test serves to state
  properties.
\<close>

fun isSave :: "effect \<Rightarrow> bool" where
  "isSave (SaveVectorChunks vectorChunks) = True"
| "isSave _ = False"

text \<open>
  The collaborators, which are not among the sources, as parameters: the outcome of the
  \<open>k\<close>-th call of the embedding provider on a text and a configuration, the outcome of
  saving chunks, the outcome of loading the chunks of a source, the \<open>k\<close>-th value of
  \<^verbatim>\<open>crypto.randomUUID()\<close> and the current time as an ISO string. The state holds the
  effects so far and the numbers of embedding calls and UUIDs drawn.
\<close>

record rag_env =
  generateEmbedding :: "nat \<Rightarrow> string \<Rightarrow> embeddingConfig \<Rightarrow> thrown + real list"
  saveVectorChunks :: "vectorChunk list \<Rightarrow> thrown + unit"
  getVectorChunksBySource :: "string \<Rightarrow> thrown + vectorChunk list"
  randomUUID :: "nat \<Rightarrow> string"
  now :: string

record rag_state =
  effects :: "effect list"
  embedCalls :: nat
  uuids :: nat

text \<open>
  \<^verbatim>\<open>calculateCosineSimilarity\<close>, computed over the real numbers: the rounding, overflow
  and \<open>NaN\<close> of the program's double-precision arithmetic are not modelled, so the
  ranking of the model is that of exact arithmetic. No claim below depends on it.
\<close>

definition calculateCosineSimilarity :: "real list \<Rightarrow> real list \<Rightarrow> real" where
  "calculateCosineSimilarity vecA vecB =
     (if length vecA \<noteq> length vecB \<or> length vecA = 0 then 0
      else
        (let dotProduct = sum_list (map (\<lambda>(a, b). a * b) (zip vecA vecB));
             normA = sum_list (map (\<lambda>a. a * a) vecA);
             normB = sum_list (map (\<lambda>b. b * b) vecB)
         in if normA = 0 \<or> normB = 0 then 0
            else dotProduct / (sqrt normA * sqrt normB)))"

text \<open>
  The \<^verbatim>\<open>for\<close> loop of \<^verbatim>\<open>processAndIndexFile\<close> over the text chunks, \<open>i\<close> being the index
  of the first chunk of the list still to embed and \<open>len\<close> the number of all chunks.
  \<^verbatim>\<open>
  onProgress(`Generating embedding for chunk ${i + 1} of ${textChunks.length}...`);
  try {
      const embedding = await embeddingService.generateEmbedding(chunk, embeddingConfig);
      vectorChunks.push({ id: `chunk-${crypto.randomUUID()}`, sourceId: newSource.id,
                          content: chunk, embedding: embedding });
  } catch (error) {
      throw new Error(`Failed to process chunk ${i+1}. Check embedding API settings.`);
  }
  \<close>
\<close>

fun embed_loop ::
  "rag_env \<Rightarrow> embeddingConfig \<Rightarrow> string \<Rightarrow> nat \<Rightarrow> nat \<Rightarrow> string list \<Rightarrow> vectorChunk list
     \<Rightarrow> rag_state \<Rightarrow> (thrown + vectorChunk list) \<times> rag_state" where
  "embed_loop env embeddingConfig sourceId len i [] vectorChunks s = (Inr vectorChunks, s)"
| "embed_loop env embeddingConfig sourceId len i (chunk # rest) vectorChunks s =
     (let s1 = s\<lparr>effects := effects s @
                 [Progress (''Generating embedding for chunk '' @ decimal (i + 1) @ '' of '' @
                            decimal len @ ''...''),
                  GenerateEmbedding chunk embeddingConfig],
               embedCalls := embedCalls s + 1\<rparr>
      in case generateEmbedding env (embedCalls s) chunk embeddingConfig of
           Inl error \<Rightarrow>
             (Inl (JsError (''Failed to process chunk '' @ decimal (i + 1) @
                            ''. Check embedding API settings.'')), s1)
         | Inr embedding \<Rightarrow>
             embed_loop env embeddingConfig sourceId len (i + 1) rest
               (vectorChunks @
                  [\<lparr>chunk_id = ''chunk-'' @ randomUUID env (uuids s1),
                    chunk_sourceId = sourceId,
                    chunk_content = chunk,
                    chunk_embedding = embedding\<rparr>])
               (s1\<lparr>uuids := uuids s1 + 1\<rparr>))"

text \<open>
  \<^verbatim>\<open>processAndIndexFile\<close>. The chunker is called with its default parameters; the
  result is \<open>None\<close> only if the chunker does not return.
\<close>

definition processAndIndexFile ::
  "rag_env \<Rightarrow> uploaded_file \<Rightarrow> embeddingConfig \<Rightarrow> rag_state \<Rightarrow> ((thrown + ragSource) \<times> rag_state) option" where
  "processAndIndexFile env file embeddingConfig s =
     (let newSource = \<lparr>source_id = ''source-'' @ randomUUID env (uuids s),
                       source_fileName = file_name file,
                       source_fileType = file_type file,
                       source_createdAt = now env\<rparr>;
          s1 = s\<lparr>uuids := uuids s + 1,
                 effects := effects s @ [Progress (''Reading file: '' @ file_name file @ ''...'')]\<rparr>
      in case file_text file of
           Inl error \<Rightarrow> Some (Inl error, s1)
         | Inr content \<Rightarrow>
             (let s2 = s1\<lparr>effects := effects s1 @ [Progress ''Chunking text...'']\<rparr>
              in case chunkText content 1000 200 of
                   None \<Rightarrow> None
                 | Some textChunks \<Rightarrow>
                     (case embed_loop env embeddingConfig (source_id newSource)
                             (length textChunks) 0 textChunks [] s2 of
                        (Inl error, s3) \<Rightarrow> Some (Inl error, s3)
                      | (Inr vectorChunks, s3) \<Rightarrow>
                          (let s4 = s3\<lparr>effects := effects s3 @
                                      [Progress (''Saving '' @ decimal (length vectorChunks) @
                                                 '' vectors to the database...''),
                                       SaveVectorChunks vectorChunks]\<rparr>
                           in case saveVectorChunks env vectorChunks of
                                Inl error \<Rightarrow> Some (Inl error, s4)
                              | Inr u \<Rightarrow> Some (Inr newSource, s4)))))"

text \<open>
  The loop of \<^verbatim>\<open>findRelevantContext\<close> that loads the chunks of every linked source.
\<close>

fun load_chunks ::
  "rag_env \<Rightarrow> string list \<Rightarrow> vectorChunk list \<Rightarrow> rag_state
     \<Rightarrow> (thrown + vectorChunk list) \<times> rag_state" where
  "load_chunks env [] allChunks s = (Inr allChunks, s)"
| "load_chunks env (sourceId # sourceIds) allChunks s =
     (let s1 = s\<lparr>effects := effects s @ [GetVectorChunksBySource sourceId]\<rparr>
      in case getVectorChunksBySource env sourceId of
           Inl error \<Rightarrow> (Inl error, s1)
         | Inr chunks \<Rightarrow> load_chunks env sourceIds (allChunks @ chunks) s1)"

text \<open>
  \<^verbatim>\<open>findRelevantContext\<close>; the result \<^verbatim>\<open>null\<close> is \<open>None\<close>. The comparator
  \<^verbatim>\<open>(a, b) => b.similarity - a.similarity\<close> with the stable \<^verbatim>\<open>Array.prototype.sort\<close> is
  a stable sort by descending similarity.
\<close>

definition findRelevantContext ::
  "rag_env \<Rightarrow> string \<Rightarrow> character \<Rightarrow> int \<Rightarrow> rag_state \<Rightarrow> (thrown + string option) \<times> rag_state" where
  "findRelevantContext env query character topK s =
     (case char_embeddingConfig character of
        None \<Rightarrow> (Inr None, s)
      | Some embeddingConfig \<Rightarrow>
          (let sourceIds = (case knowledgeSourceIds character of None \<Rightarrow> [] | Some ids \<Rightarrow> ids)
           in if length sourceIds = 0 then (Inr None, s)
              else
                (let s1 = s\<lparr>effects := effects s @ [GenerateEmbedding query embeddingConfig],
                          embedCalls := embedCalls s + 1\<rparr>
                 in case generateEmbedding env (embedCalls s) query embeddingConfig of
                      Inl error \<Rightarrow> (Inl error, s1)
                    | Inr queryEmbedding \<Rightarrow>
                        (case load_chunks env sourceIds [] s1 of
                           (Inl error, s2) \<Rightarrow> (Inl error, s2)
                         | (Inr allChunks, s2) \<Rightarrow>
                             if length allChunks = 0 then (Inr None, s2)
                             else
                               (let scoredChunks =
                                      map (\<lambda>chunk. (chunk, calculateCosineSimilarity queryEmbedding
                                                             (chunk_embedding chunk))) allChunks;
                                    sortedChunks = sort_key (\<lambda>(chunk, similarity). - similarity)
                                                     scoredChunks;
                                    topChunks = slice sortedChunks 0 topK
                                in (Inr (Some (join ''\<newline>\<newline>---\<newline>\<newline>''
                                           (map (\<lambda>(chunk, similarity). chunk_content chunk)
                                              topChunks))), s2))))))"


section \<open>Properties of the chunker\<close>

lemma chunk_loop_exit:
  "\<not> i < int (length text) \<Longrightarrow> chunk_loop text chunkSize overlap i chunks = Some chunks"
  by (subst chunk_loop.simps) simp

lemma chunk_loop_step:
  "i < int (length text) \<Longrightarrow>
   chunk_loop text chunkSize overlap i chunks =
   chunk_loop text chunkSize overlap
     (if int (length text) \<le> i + chunkSize then int (length text) else i + (chunkSize - overlap))
     (chunks @ [slice text i (min (i + chunkSize) (int (length text)))])"
  by (subst chunk_loop.simps) (simp add: Let_def)

text \<open>With \<open>overlap < chunkSize\<close> the cursor advances, so the loop returns.\<close>

lemma chunk_loop_terminates:
  assumes "overlap < chunkSize"
  shows "\<exists>out. chunk_loop text chunkSize overlap i chunks = Some out"
proof (induction "nat (int (length text) - i)" arbitrary: i chunks rule: less_induct)
  case less
  show ?case
  proof (cases "i < int (length text)")
    case False
    then show ?thesis by (simp add: chunk_loop_exit)
  next
    case True
    let ?i' = "if int (length text) \<le> i + chunkSize then int (length text)
               else i + (chunkSize - overlap)"
    have "nat (int (length text) - ?i') < nat (int (length text) - i)"
      using True assms by auto
    from less [OF this] show ?thesis
      by (simp only: chunk_loop_step [OF True])
  qed
qed

lemma chunk_loop_spans:
  assumes "0 \<le> overlap" "overlap < chunkSize"
  shows "0 \<le> i \<Longrightarrow> \<exists>spans. chunk_loop text chunkSize overlap i chunks =
             Some (chunks @ map (\<lambda>(s, e). slice text s e) spans) \<and>
           spans_from i (int (length text)) spans"
proof (induction "nat (int (length text) - i)" arbitrary: i chunks rule: less_induct)
  case less
  let ?n = "int (length text)"
  show ?case
  proof (cases "i < ?n")
    case False
    then have "chunk_loop text chunkSize overlap i chunks =
        Some (chunks @ map (\<lambda>(s, e). slice text s e) []) \<and> spans_from i ?n []"
      by (simp add: chunk_loop_exit)
    then show ?thesis by blast
  next
    case True
    let ?e = "min (i + chunkSize) ?n"
    show ?thesis
    proof (cases "?n \<le> i + chunkSize")
      case last: True
      have "chunk_loop text chunkSize overlap i chunks =
          Some (chunks @ map (\<lambda>(s, e). slice text s e) [(i, ?n)])"
        using True last by (simp add: chunk_loop_step chunk_loop_exit)
      moreover have "spans_from i ?n [(i, ?n)]"
        using True less.prems by simp
      ultimately show ?thesis by blast
    next
      case more: False
      let ?i' = "i + (chunkSize - overlap)"
      have i': "0 \<le> ?i'" "i < ?i'" "?i' \<le> i + chunkSize" "?i' < ?n"
        using assms less.prems more by auto
      have "nat (?n - ?i') < nat (?n - i)"
        using True i' by auto
      from less.hyps [OF this i'(1), of "chunks @ [slice text i ?e]"]
      obtain spans where
        run: "chunk_loop text chunkSize overlap ?i' (chunks @ [slice text i ?e]) =
            Some ((chunks @ [slice text i ?e]) @ map (\<lambda>(s, e). slice text s e) spans)"
        and sp: "spans_from ?i' ?n spans"
        by blast
      from sp i'(4) obtain e' rest where spans: "spans = (?i', e') # rest"
        by (cases spans) auto
      have "chunk_loop text chunkSize overlap i chunks =
          Some (chunks @ map (\<lambda>(s, e). slice text s e) ((i, ?e) # spans))"
        using True more run by (simp add: chunk_loop_step)
      moreover have "spans_from i ?n ((i, ?e) # spans)"
        using sp spans True more less.prems i' by (simp add: min_def)
      ultimately show ?thesis by blast
    qed
  qed
qed

lemma spans_from_bounds:
  "spans_from i n spans \<Longrightarrow> k < length spans \<Longrightarrow>
   0 \<le> fst (spans ! k) \<and> fst (spans ! k) < snd (spans ! k) \<and> snd (spans ! k) \<le> n"
proof (induction spans arbitrary: i k)
  case Nil
  then show ?case by simp
next
  case (Cons a spans)
  obtain s e where a: "a = (s, e)" by (cases a)
  show ?case
  proof (cases k)
    case 0
    with Cons.prems a show ?thesis by simp
  next
    case (Suc j)
    with Cons.prems a obtain s' e' rest where "spans = (s', e') # rest"
      by (cases spans) auto
    with Cons.prems a have "spans_from s' n spans" by simp
    from Cons.IH [OF this, of j] Cons.prems Suc show ?thesis by simp
  qed
qed

lemma spans_from_adjacent:
  "spans_from i n spans \<Longrightarrow> Suc k < length spans \<Longrightarrow>
   fst (spans ! k) < fst (spans ! Suc k) \<and> fst (spans ! Suc k) \<le> snd (spans ! k)"
proof (induction spans arbitrary: i k)
  case Nil
  then show ?case by simp
next
  case (Cons a spans)
  obtain s e where a: "a = (s, e)" by (cases a)
  from Cons.prems obtain s' e' rest where sp: "spans = (s', e') # rest"
    by (cases spans) auto
  with Cons.prems a have tl: "spans_from s' n spans" by simp
  show ?case
  proof (cases k)
    case 0
    with Cons.prems a sp show ?thesis by simp
  next
    case (Suc j)
    from Cons.IH [OF tl, of j] Cons.prems Suc show ?thesis by simp
  qed
qed

lemma spans_from_covers:
  "spans_from i n spans \<Longrightarrow> i \<le> p \<Longrightarrow> p < n \<Longrightarrow>
   \<exists>k < length spans. fst (spans ! k) \<le> p \<and> p < snd (spans ! k)"
proof (induction spans arbitrary: i)
  case Nil
  then show ?case by simp
next
  case (Cons a spans)
  obtain s e where a: "a = (s, e)" by (cases a)
  show ?case
  proof (cases "p < e")
    case True
    with Cons.prems a have "fst ((a # spans) ! 0) \<le> p \<and> p < snd ((a # spans) ! 0)"
      by simp
    then show ?thesis by blast
  next
    case False
    with Cons.prems a obtain s' e' rest where sp: "spans = (s', e') # rest"
      by (cases spans) auto
    with Cons.prems a have tl: "spans_from s' n spans" and "s' \<le> e" by simp_all
    with False have "s' \<le> p" by simp
    from Cons.IH [OF tl this Cons.prems(3)]
    obtain k where "k < length spans" "fst (spans ! k) \<le> p \<and> p < snd (spans ! k)"
      by blast
    then have "Suc k < length (a # spans) \<and>
        fst ((a # spans) ! Suc k) \<le> p \<and> p < snd ((a # spans) ! Suc k)"
      by simp
    then show ?thesis by blast
  qed
qed

text \<open>
  With \<open>chunkSize \<le> overlap\<close> the cursor never moves forward: on a non-empty text
  longer than \<open>chunkSize\<close> the exit test never succeeds and the loop does not return.
\<close>

lemma chunk_loop_diverges:
  assumes "chunkSize \<le> overlap" "chunkSize < int (length text)" "text \<noteq> []" "i \<le> 0"
  shows "chunk_loop text chunkSize overlap i chunks = None"
proof (cases "chunk_loop text chunkSize overlap i chunks")
  case None
  then show ?thesis .
next
  case (Some out)
  have "\<not> (chunkSize \<le> overlap \<and> chunkSize < int (length text) \<and> text \<noteq> [] \<and> i \<le> 0)"
  proof (rule chunk_loop.raw_induct
      [where P = "\<lambda>text' cs ov j acc out.
          \<not> (cs \<le> ov \<and> cs < int (length text') \<and> text' \<noteq> [] \<and> j \<le> 0)",
        OF _ Some])
    fix loop :: "'a list \<Rightarrow> int \<Rightarrow> int \<Rightarrow> int \<Rightarrow> 'a list list \<Rightarrow> 'a list list option"
      and text' cs ov j acc out'
    assume IH: "\<And>text' cs ov j acc out'. loop text' cs ov j acc = Some out' \<Longrightarrow>
        \<not> (cs \<le> ov \<and> cs < int (length text') \<and> text' \<noteq> [] \<and> j \<le> 0)"
    assume step: "(if j < int (length text') then
        (let end = min (j + cs) (int (length text'));
             chunks' = acc @ [slice text' j end];
             i' = j + (cs - ov);
             i'' = (if i' + ov \<ge> int (length text') then int (length text') else i')
         in loop text' cs ov i'' chunks')
      else Some acc) = Some out'"
    show "\<not> (cs \<le> ov \<and> cs < int (length text') \<and> text' \<noteq> [] \<and> j \<le> 0)"
    proof
      assume inv: "cs \<le> ov \<and> cs < int (length text') \<and> text' \<noteq> [] \<and> j \<le> 0"
      then have c: "cs \<le> ov" "cs < int (length text')" "j \<le> 0" and "text' \<noteq> []"
        by simp_all
      then have pos: "0 < int (length text')" by simp
      have "j < int (length text')" "\<not> int (length text') \<le> j + (cs - ov) + ov"
        using c pos by linarith+
      with step have "loop text' cs ov (j + (cs - ov))
          (acc @ [slice text' j (min (j + cs) (int (length text')))]) = Some out'"
        by (simp add: Let_def)
      from IH [OF this]
      have "\<not> (cs \<le> ov \<and> cs < int (length text') \<and> text' \<noteq> [] \<and> j + (cs - ov) \<le> 0)" .
      moreover have "j + (cs - ov) \<le> 0" using c by linarith
      ultimately show False using inv by blast
    qed
  qed
  with assms show ?thesis by blast
qed

lemma chunkText_2500:
  assumes "length T = 2500"
  shows "chunkText T 1000 200 = Some [slice T 0 1000, slice T 800 1800, slice T 1600 2500]"
  using assms by (simp add: chunkText_def chunk_loop_step chunk_loop_exit)

text \<open>
  C1: for every text \<open>T\<close> and parameters with \<open>0 < overlap < chunkSize\<close> the chunker
  returns, and its output is the list of substrings of \<open>T\<close> at a list of spans
  \<open>(start, end)\<close> such that every span is a non-empty range inside \<open>T\<close>, every
  character position of \<open>T\<close> lies in at least one span, each span starts no later than
  the end of the span before it (no gaps), and the starts strictly increase (document
  order).
\<close>

theorem chunkText_covers:
  assumes "0 < overlap" and "overlap < chunkSize"
  shows "\<exists>spans.
     chunkText T chunkSize overlap = Some (map (\<lambda>(s, e). slice T s e) spans) \<and>
     (\<forall>k < length spans. 0 \<le> fst (spans ! k) \<and> fst (spans ! k) < snd (spans ! k) \<and>
        snd (spans ! k) \<le> int (length T)) \<and>
     (\<forall>p < length T. \<exists>k < length spans. fst (spans ! k) \<le> int p \<and> int p < snd (spans ! k)) \<and>
     (\<forall>k. Suc k < length spans \<longrightarrow> fst (spans ! Suc k) \<le> snd (spans ! k)) \<and>
     (\<forall>k. Suc k < length spans \<longrightarrow> fst (spans ! k) < fst (spans ! Suc k))"
proof -
  from assms have "0 \<le> overlap" by simp
  from chunk_loop_spans [OF this assms(2), of 0 T "[]"]
  obtain spans where
    out: "chunkText T chunkSize overlap = Some (map (\<lambda>(s, e). slice T s e) spans)"
    and sp: "spans_from 0 (int (length T)) spans"
    by (auto simp: chunkText_def)
  have "\<forall>k < length spans. 0 \<le> fst (spans ! k) \<and> fst (spans ! k) < snd (spans ! k) \<and>
        snd (spans ! k) \<le> int (length T)"
    using spans_from_bounds [OF sp] by blast
  moreover have "\<forall>p < length T. \<exists>k < length spans.
        fst (spans ! k) \<le> int p \<and> int p < snd (spans ! k)"
    using spans_from_covers [OF sp] by simp
  moreover have "\<forall>k. Suc k < length spans \<longrightarrow> fst (spans ! Suc k) \<le> snd (spans ! k)"
    using spans_from_adjacent [OF sp] by blast
  moreover have "\<forall>k. Suc k < length spans \<longrightarrow> fst (spans ! k) < fst (spans ! Suc k)"
    using spans_from_adjacent [OF sp] by blast
  ultimately show ?thesis using out by blast
qed

theorem chunkText_covers_witness:
  "(0::int) < 1 \<and> (1::int) < 4 \<and>
   chunkText ''abcdefghij'' 4 1 = Some [''abcd'', ''defg'', ''ghij''] \<and>
   (\<exists>spans. chunkText ''abcdefghij'' 4 1 = Some (map (\<lambda>(s, e). slice ''abcdefghij'' s e) spans) \<and>
     (\<forall>p < length ''abcdefghij''. \<exists>k < length spans.
        fst (spans ! k) \<le> int p \<and> int p < snd (spans ! k)))"
proof -
  have h1: "(0::int) < 1" and h2: "(1::int) < 4" by simp_all
  have "chunkText ''abcdefghij'' 4 1 = Some [''abcd'', ''defg'', ''ghij'']"
    by (simp add: chunkText_def chunk_loop_step chunk_loop_exit slice_def)
  moreover from chunkText_covers [OF h1 h2, of "''abcdefghij''"]
  have "\<exists>spans. chunkText ''abcdefghij'' 4 1 = Some (map (\<lambda>(s, e). slice ''abcdefghij'' s e) spans) \<and>
     (\<forall>p < length ''abcdefghij''. \<exists>k < length spans.
        fst (spans ! k) \<le> int p \<and> int p < snd (spans ! k))"
    by blast
  ultimately show ?thesis by simp
qed

text \<open>
  C2, as stated, fails: a 2500-character document chunked with \<open>chunkSize = 1000\<close> and
  \<open>overlap = 200\<close> gives three chunks, not four. After the third chunk the cursor is
  2400 and \<open>2400 + 200 \<ge> 2500\<close>, so the exit rule ends the loop.
\<close>

theorem chunkText_2500_not_four:
  "map_option length (chunkText (replicate 2500 (CHR ''x'')) 1000 200) = Some 3 \<and>
   map_option length (chunkText (replicate 2500 (CHR ''x'')) 1000 200) \<noteq> Some 4"
  using chunkText_2500 [of "replicate 2500 (CHR ''x'')"] by simp

text \<open>
  C2, amended: chunking any 2500-character document with \<open>chunkSize = 1000\<close> and
  \<open>overlap = 200\<close> yields exactly three chunks, the substrings at \<open>[0, 1000)\<close>,
  \<open>[800, 1800)\<close> and \<open>[1600, 2500)\<close>.
\<close>

theorem chunkText_2500_three_chunks:
  assumes "length T = 2500"
  shows "chunkText T 1000 200 =
           Some [take 1000 T, take 1000 (drop 800 T), drop 1600 T]"
  using assms chunkText_2500 [OF assms] by (simp add: slice_def)

theorem chunkText_2500_three_chunks_witness:
  "length (replicate 2500 (CHR ''y'')) = 2500 \<and>
   chunkText (replicate 2500 (CHR ''y'')) 1000 200 =
     Some [take 1000 (replicate 2500 (CHR ''y'')),
           take 1000 (drop 800 (replicate 2500 (CHR ''y''))),
           drop 1600 (replicate 2500 (CHR ''y''))]"
proof -
  have h: "length (replicate 2500 (CHR ''y'')) = 2500" by simp
  from chunkText_2500_three_chunks [OF h] h show ?thesis by blast
qed

text \<open>
  C3, as stated, fails: the chunker has no validation and no error path. With
  \<open>chunkSize = overlap = 5\<close> the text \<open>abc\<close> is returned as one chunk, and with
  \<open>chunkSize = overlap = 2\<close> the text \<open>abcdef\<close> makes the loop run forever.
\<close>

theorem chunkText_no_ConfigError:
  "chunkText ''abc'' 5 5 = Some [''abc''] \<and> chunkText ''abcdef'' 2 2 = None"
proof
  show "chunkText ''abc'' 5 5 = Some [''abc'']"
    by (simp add: chunkText_def chunk_loop_step chunk_loop_exit slice_def)
  show "chunkText ''abcdef'' 2 2 = None"
    using chunk_loop_diverges [of 2 2 "''abcdef''" 0 "[]"] by (simp add: chunkText_def)
qed

text \<open>
  C3, amended: the chunker does not validate its parameters and raises no error. For
  parameters that violate \<open>chunkSize > overlap \<ge> 0\<close>: when \<open>chunkSize \<le> overlap\<close> it
  returns no chunk for the empty text, the whole text as one chunk when the text is no
  longer than \<open>chunkSize\<close>, and does not return otherwise; when \<open>overlap\<close> is negative
  and below \<open>chunkSize\<close> it returns a list of chunks.
\<close>

theorem chunkText_unvalidated:
  assumes "\<not> (overlap < chunkSize \<and> 0 \<le> overlap)"
  shows "(chunkSize \<le> overlap \<longrightarrow>
            chunkText T chunkSize overlap =
              (if T = [] then Some []
               else if int (length T) \<le> chunkSize then Some [T] else None)) \<and>
         (overlap < chunkSize \<longrightarrow> (\<exists>chunks. chunkText T chunkSize overlap = Some chunks))"
proof (intro conjI impI)
  assume le: "chunkSize \<le> overlap"
  show "chunkText T chunkSize overlap =
      (if T = [] then Some [] else if int (length T) \<le> chunkSize then Some [T] else None)"
  proof (cases "T = []")
    case True
    then show ?thesis by (simp add: chunkText_def chunk_loop_exit)
  next
    case ne: False
    show ?thesis
    proof (cases "int (length T) \<le> chunkSize")
      case True
      with ne show ?thesis
        by (simp add: chunkText_def chunk_loop_step chunk_loop_exit slice_def)
    next
      case False
      with ne le chunk_loop_diverges [of chunkSize overlap T 0 "[]"] show ?thesis
        by (simp add: chunkText_def)
    qed
  qed
next
  assume "overlap < chunkSize"
  from chunk_loop_terminates [OF this]
  show "\<exists>chunks. chunkText T chunkSize overlap = Some chunks"
    by (simp add: chunkText_def)
qed

theorem chunkText_unvalidated_witness:
  "\<not> ((7::int) < 7 \<and> (0::int) \<le> 7) \<and> chunkText ''hello'' 7 7 = Some [''hello''] \<and>
   \<not> ((-1::int) < 3 \<and> (0::int) \<le> -1) \<and> (\<exists>chunks. chunkText ''hello'' 3 (-1) = Some chunks)"
proof -
  have h1: "\<not> ((7::int) < 7 \<and> (0::int) \<le> 7)" and h2: "\<not> ((-1::int) < 3 \<and> (0::int) \<le> -1)"
    by simp_all
  from chunkText_unvalidated [OF h1, of "''hello''"]
  have "chunkText ''hello'' 7 7 = Some [''hello'']" by simp
  moreover from chunkText_unvalidated [OF h2, of "''hello''"]
  have "\<exists>chunks. chunkText ''hello'' 3 (-1) = Some chunks" by simp
  ultimately show ?thesis by simp
qed


section \<open>Properties of the retry executor\<close>

text \<open>
  A run of the loop from attempt \<open>a\<close>: after \<open>j\<close> transient failures, an outcome that
  ends the loop (a result, a fatal error, or a transient error on the last attempt) is
  returned as it is; the operation has been invoked \<open>j + 1\<close> times and each of the \<open>j\<close>
  retries was preceded by its delay.
\<close>

lemma withRetry_loop_run:
  assumes "\<forall>k<j. \<exists>e. apiCall (calls s + k) = Inl e \<and> isRateLimitError e"
    and "int (a + j) < m"
    and "case apiCall (calls s + j) of Inr v \<Rightarrow> True
         | Inl e \<Rightarrow> \<not> isRateLimitError e \<or> m \<le> int (a + j) + 1"
  shows "withRetry_loop apiCall rnd m d a s =
     (apiCall (calls s + j),
      s\<lparr>calls := calls s + j + 1, randoms := randoms s + j,
        slept := slept s @ map (\<lambda>k. d * 2 ^ (a + k) + rnd (randoms s + k) * 1000) [0..<j]\<rparr>)"
  using assms
proof (induction j arbitrary: a s)
  case 0
  then show ?case
    by (subst withRetry_loop.simps) (auto simp: Let_def split: sum.splits)
next
  case (Suc j)
  from Suc.prems(1) obtain e where e: "apiCall (calls s) = Inl e" "isRateLimitError e"
    by force
  let ?s2 = "s\<lparr>calls := calls s + 1, randoms := randoms s + 1,
      slept := slept s @ [d * 2 ^ a + rnd (randoms s) * 1000]\<rparr>"
  have step: "withRetry_loop apiCall rnd m d a s = withRetry_loop apiCall rnd m d (a + 1) ?s2"
    using e Suc.prems(2) by (subst withRetry_loop.simps) (simp add: Let_def)
  have 1: "\<forall>k<j. \<exists>e. apiCall (calls ?s2 + k) = Inl e \<and> isRateLimitError e"
    using Suc.prems(1) by (auto simp: less_Suc_eq_0_disj)
  have 2: "int (a + 1 + j) < m" using Suc.prems(2) by simp
  have 3: "case apiCall (calls ?s2 + j) of Inr v \<Rightarrow> True
         | Inl e \<Rightarrow> \<not> isRateLimitError e \<or> m \<le> int (a + 1 + j) + 1"
    using Suc.prems(3) by (simp split: sum.splits)
  have "map (\<lambda>k. d * 2 ^ (a + k) + rnd (randoms s + k) * 1000) [0..<Suc j] =
      (d * 2 ^ a + rnd (randoms s) * 1000) #
      map (\<lambda>k. d * 2 ^ (a + 1 + k) + rnd (randoms s + 1 + k) * 1000) [0..<j]"
    by (simp only: upt_conv_Cons [of 0 "Suc j"] map_Suc_upt [symmetric]) (simp add: comp_def)
  with Suc.IH [OF 1 2 3] step show ?case by simp
qed


text \<open>
  C4: with \<open>maxRetries \<ge> 1\<close> (so that there is a first attempt), an operation whose first
  invocation fails with a fatal error is invoked exactly once, nothing is slept, and that
  error is rethrown; an operation that fails with a transient error on every attempt is
  invoked exactly \<open>maxRetries\<close> times, \<open>initialDelay * 2 ^ attempt + jitter\<close> is slept
  before each retry (attempts \<open>0 .. maxRetries - 2\<close>), every jitter lies in \<open>[0, 1000)\<close>,
  and the error of the last invocation is rethrown.
\<close>

theorem withRetry_fatal_once_transient_maxRetries:
  assumes "1 \<le> maxRetries"
  shows "(apiCall 0 = Inl e \<and> \<not> isRateLimitError e \<longrightarrow>
            withRetry apiCall random maxRetries initialDelay fresh =
              (Inl e, \<lparr>calls = 1, randoms = 0, slept = []\<rparr>)) \<and>
         ((\<forall>k < nat maxRetries. \<exists>e. apiCall k = Inl e \<and> isRateLimitError e) \<and>
          (\<forall>k. 0 \<le> random k \<and> random k < 1) \<longrightarrow>
            withRetry apiCall random maxRetries initialDelay fresh =
              (apiCall (nat maxRetries - 1),
               \<lparr>calls = nat maxRetries, randoms = nat maxRetries - 1,
                slept = map (\<lambda>attempt. initialDelay * 2 ^ attempt + random attempt * 1000)
                          [0..<nat maxRetries - 1]\<rparr>) \<and>
            (\<exists>e. apiCall (nat maxRetries - 1) = Inl e) \<and>
            (\<forall>attempt. 0 \<le> random attempt * 1000 \<and> random attempt * 1000 < 1000))"
proof (intro conjI impI)
  assume fatal: "apiCall 0 = Inl e \<and> \<not> isRateLimitError e"
  have "withRetry_loop apiCall random maxRetries initialDelay 0 fresh =
      (apiCall (calls fresh + 0),
       fresh\<lparr>calls := calls fresh + 0 + 1, randoms := randoms fresh + 0,
         slept := slept fresh @
           map (\<lambda>k. initialDelay * 2 ^ (0 + k) + random (randoms fresh + k) * 1000) [0..<0]\<rparr>)"
    using assms fatal by (intro withRetry_loop_run) (simp_all add: fresh_def)
  with fatal show "withRetry apiCall random maxRetries initialDelay fresh =
      (Inl e, \<lparr>calls = 1, randoms = 0, slept = []\<rparr>)"
    by (simp add: withRetry_def fresh_def)
next
  assume transient: "(\<forall>k < nat maxRetries. \<exists>e. apiCall k = Inl e \<and> isRateLimitError e) \<and>
      (\<forall>k. 0 \<le> random k \<and> random k < 1)"
  let ?j = "nat maxRetries - 1"
  have j: "?j < nat maxRetries" "int ?j + 1 = maxRetries" using assms by simp_all
  with transient obtain e where e: "apiCall ?j = Inl e" by blast
  have "withRetry_loop apiCall random maxRetries initialDelay 0 fresh =
      (apiCall (calls fresh + ?j),
       fresh\<lparr>calls := calls fresh + ?j + 1, randoms := randoms fresh + ?j,
         slept := slept fresh @
           map (\<lambda>k. initialDelay * 2 ^ (0 + k) + random (randoms fresh + k) * 1000) [0..<?j]\<rparr>)"
  proof (rule withRetry_loop_run)
    show "\<forall>k<?j. \<exists>e. apiCall (calls fresh + k) = Inl e \<and> isRateLimitError e"
      using transient by (simp add: fresh_def)
    show "int (0 + ?j) < maxRetries" using assms by simp
    show "case apiCall (calls fresh + ?j) of Inr v \<Rightarrow> True
         | Inl e \<Rightarrow> \<not> isRateLimitError e \<or> maxRetries \<le> int (0 + ?j) + 1"
      using e j by (simp add: fresh_def)
  qed
  then show "withRetry apiCall random maxRetries initialDelay fresh =
      (apiCall ?j,
       \<lparr>calls = nat maxRetries, randoms = ?j,
        slept = map (\<lambda>attempt. initialDelay * 2 ^ attempt + random attempt * 1000) [0..<?j]\<rparr>)"
    using assms by (simp add: withRetry_def fresh_def)
  from e show "\<exists>e. apiCall ?j = Inl e" by blast
  from transient show "\<forall>attempt. 0 \<le> random attempt * 1000 \<and> random attempt * 1000 < 1000"
    by simp
qed

theorem withRetry_fatal_once_transient_maxRetries_witness:
  "(1::int) \<le> 3 \<and>
   withRetry (\<lambda>k. Inl (JsError ''boom'') :: thrown + unit) (\<lambda>k. 1 / 2) 3 2000 fresh =
     (Inl (JsError ''boom''), \<lparr>calls = 1, randoms = 0, slept = []\<rparr>) \<and>
   withRetry (\<lambda>k. Inl (JsError ''429 Too Many Requests'') :: thrown + unit) (\<lambda>k. 1 / 2) 3 2000 fresh =
     (Inl (JsError ''429 Too Many Requests''), \<lparr>calls = 3, randoms = 2, slept = [2500, 4500]\<rparr>)"
proof -
  have h: "(1::int) \<le> 3" by simp
  have fatal: "\<not> isRateLimitError (JsError ''boom'')"
    by (simp add: isRateLimitError_def)
  have transient: "isRateLimitError (JsError ''429 Too Many Requests'')"
    by (simp add: isRateLimitError_def)
  have upt: "[0..<2] = [0, Suc 0]" by (simp add: upt_rec)
  from withRetry_fatal_once_transient_maxRetries
    [OF h, of "\<lambda>k. Inl (JsError ''boom'') :: thrown + unit" "JsError ''boom''" "\<lambda>k. 1 / 2" 2000] fatal
  have "withRetry (\<lambda>k. Inl (JsError ''boom'') :: thrown + unit) (\<lambda>k. 1 / 2) 3 2000 fresh =
     (Inl (JsError ''boom''), \<lparr>calls = 1, randoms = 0, slept = []\<rparr>)"
    by simp
  moreover from withRetry_fatal_once_transient_maxRetries
    [OF h, of "\<lambda>k. Inl (JsError ''429 Too Many Requests'') :: thrown + unit" _ "\<lambda>k. 1 / 2" 2000]
    transient
  have "withRetry (\<lambda>k. Inl (JsError ''429 Too Many Requests'') :: thrown + unit) (\<lambda>k. 1 / 2) 3 2000 fresh =
     (Inl (JsError ''429 Too Many Requests''), \<lparr>calls = 3, randoms = 2, slept = [2500, 4500]\<rparr>)"
    by (simp add: upt)
  ultimately show ?thesis by simp
qed




section \<open>Properties of history normalization\<close>

lemma runs_nonempty: "r \<in> set (runs ts) \<Longrightarrow> r \<noteq> []"
  by (induction ts arbitrary: r) (auto split: list.splits if_splits)

lemma runs_Cons_cases:
  obtains (single) "runs ts = []" "runs (t # ts) = [[t]]"
  | (join) u r rs where "runs ts = (u # r) # rs" "turn_role t = turn_role u"
      "runs (t # ts) = (t # u # r) # rs"
  | (start) u r rs where "runs ts = (u # r) # rs" "turn_role t \<noteq> turn_role u"
      "runs (t # ts) = [t] # (u # r) # rs"
proof (cases "runs ts")
  case Nil
  then have "runs (t # ts) = [[t]]" by simp
  with Nil show ?thesis by (rule single)
next
  case (Cons r0 rs)
  with runs_nonempty [of r0 ts] obtain u r where "r0 = u # r"
    by (cases r0) auto
  with Cons have rt: "runs ts = (u # r) # rs" by simp
  show ?thesis
  proof (cases "turn_role t = turn_role u")
    case True
    with rt have "runs (t # ts) = (t # u # r) # rs" by simp
    with rt True show ?thesis by (rule join)
  next
    case False
    with rt have "runs (t # ts) = [t] # (u # r) # rs" by simp
    with rt False show ?thesis by (rule start)
  qed
qed

lemma concat_runs: "concat (runs ts) = ts"
proof (induction ts)
  case Nil
  then show ?case by simp
next
  case (Cons t ts)
  show ?case
  proof (cases ts t rule: runs_Cons_cases)
    case single
    from Cons.IH single(1) have "ts = []" by simp
    with single(2) show ?thesis by simp
  next
    case (join u r rs)
    from Cons.IH join(1) have "ts = u # r @ concat rs" by simp
    with join(3) show ?thesis by simp
  next
    case (start u r rs)
    from Cons.IH start(1) have "ts = u # r @ concat rs" by simp
    with start(3) show ?thesis by simp
  qed
qed

lemma runs_same_role: "r \<in> set (runs ts) \<Longrightarrow> t \<in> set r \<Longrightarrow> turn_role t = turn_role (hd r)"
proof (induction ts arbitrary: r t)
  case Nil
  then show ?case by simp
next
  case (Cons a ts)
  show ?case
  proof (cases ts a rule: runs_Cons_cases)
    case single
    from Cons.prems(1) have "r \<in> set [[a]]" by (simp only: single(2))
    then have "r = [a]" by simp
    with Cons.prems(2) show ?thesis by simp
  next
    case (join u r' rs)
    from Cons.prems(1) have "r \<in> set ((a # u # r') # rs)" by (simp only: join(3))
    then consider "r = a # u # r'" | "r \<in> set rs" by auto
    then show ?thesis
    proof cases
      case 1
      have in_runs: "u # r' \<in> set (runs ts)" unfolding join(1) by simp
      have "turn_role t = turn_role a"
      proof (cases "t = a")
        case True
        then show ?thesis by simp
      next
        case False
        with Cons.prems(2) 1 have "t \<in> set (u # r')" by simp
        from Cons.IH [OF in_runs this] join(2) show ?thesis by simp
      qed
      with 1 show ?thesis by simp
    next
      case 2
      then have "r \<in> set (runs ts)" unfolding join(1) by simp
      from Cons.IH [OF this Cons.prems(2)] show ?thesis .
    qed
  next
    case (start u r' rs)
    from Cons.prems(1) have "r \<in> set ([a] # runs ts)" by (simp only: start(3) start(1))
    then consider "r = [a]" | "r \<in> set (runs ts)" by auto
    then show ?thesis
    proof cases
      case 1
      with Cons.prems(2) show ?thesis by simp
    next
      case 2
      from Cons.IH [OF this Cons.prems(2)] show ?thesis .
    qed
  qed
qed

lemma runs_adjacent:
  "Suc k < length (runs ts) \<Longrightarrow>
   turn_role (hd (runs ts ! k)) \<noteq> turn_role (hd (runs ts ! Suc k))"
proof (induction ts arbitrary: k)
  case Nil
  then show ?case by simp
next
  case (Cons t ts)
  show ?case
  proof (cases ts t rule: runs_Cons_cases)
    case single
    from Cons.prems show ?thesis unfolding single(2) by simp
  next
    case (join u r rs)
    from Cons.prems have len: "Suc k < length (runs ts)"
      unfolding join(3) join(1) by simp
    from Cons.IH [OF len] join(2) show ?thesis
      unfolding join(3) join(1) by (cases k) simp_all
  next
    case (start u r rs)
    show ?thesis
    proof (cases k)
      case 0
      with start(2) show ?thesis unfolding start(3) by simp
    next
      case (Suc j)
      with Cons.prems have len: "Suc j < length (runs ts)"
        unfolding start(3) start(1) by simp
      from Cons.IH [OF len] Suc show ?thesis
        unfolding start(3) start(1) by simp
    qed
  qed
qed

lemma merge_loop_runs:
  "merge_loop merged prev rest =
     merged @ (case runs rest of
                 (u # r) # rs \<Rightarrow>
                   if turn_role prev = turn_role u then
                     prev\<lparr>turn_parts := turn_parts prev @ concat (map turn_parts (u # r))\<rparr> #
                       map collapse rs
                   else prev # map collapse ((u # r) # rs)
               | _ \<Rightarrow> [prev])"
proof (induction rest arbitrary: merged prev)
  case Nil
  then show ?case by simp
next
  case (Cons cur rest)
  show ?case
  proof (cases rest cur rule: runs_Cons_cases)
    case single
    show ?thesis
      unfolding single(2) merge_loop.simps Cons.IH single(1) by (simp add: collapse_def)
  next
    case (join u r rs)
    show ?thesis
      unfolding join(3) merge_loop.simps Cons.IH join(1) using join(2)
      by (simp add: collapse_def)
  next
    case (start u r rs)
    show ?thesis
      unfolding start(3) merge_loop.simps Cons.IH start(1) using start(2)
      by (simp add: collapse_def)
  qed
qed

lemma merge_loop_collapse: "merge_loop [] first rest = map collapse (runs (first # rest))"
proof (cases rest first rule: runs_Cons_cases)
  case single
  show ?thesis unfolding single(2) merge_loop_runs single(1) by (simp add: collapse_def)
next
  case (join u r rs)
  show ?thesis unfolding join(3) merge_loop_runs join(1) using join(2)
    by (simp add: collapse_def)
next
  case (start u r rs)
  show ?thesis unfolding start(3) merge_loop_runs start(1) using start(2)
    by (simp add: collapse_def)
qed


lemma runs_single_role:
  "ts \<noteq> [] \<Longrightarrow> \<forall>t \<in> set ts. turn_role t = x \<Longrightarrow> runs ts = [ts]"
proof (induction ts)
  case Nil
  then show ?case by simp
next
  case (Cons t ts)
  show ?case
  proof (cases "ts = []")
    case True
    then show ?thesis by simp
  next
    case False
    with Cons have "runs ts = [ts]" by simp
    moreover from False obtain u r where "ts = u # r" by (cases ts) auto
    ultimately show ?thesis using Cons.prems(2) by simp
  qed
qed

lemma normalizeGeminiHistory_collapse:
  "normalizeGeminiHistory history = map collapse (runs (map toTurn (filter isRelevant history)))"
proof (cases "map toTurn (filter isRelevant history)")
  case Nil
  then show ?thesis by (simp add: normalizeGeminiHistory_def)
next
  case (Cons first rest)
  then have "filter isRelevant history \<noteq> []" by auto
  with Cons show ?thesis
    unfolding normalizeGeminiHistory_def Let_def by (simp only: merge_loop_collapse list.case if_False)
qed

text \<open>
  C8: the normalized history is the list of the maximal runs of consecutive relevant
  messages that resolve to the same role (narrator resolving to \<open>user\<close>), each run
  collapsed to one turn whose parts are the parts of the run's messages concatenated in
  input order. The runs are maximal: they concatenate to the mapped list, each is
  non-empty and of one role, and neighbouring runs differ in role. In particular a
  non-empty history of user and narrator messages only collapses to a single
  \<open>user\<close> turn.
\<close>

theorem normalizeGeminiHistory_merges_runs:
  "normalizeGeminiHistory history = map collapse (runs (map toTurn (filter isRelevant history))) \<and>
   concat (runs ts) = ts \<and>
   (\<forall>r \<in> set (runs ts). r \<noteq> [] \<and> (\<forall>t \<in> set r. turn_role t = turn_role (hd r))) \<and>
   (\<forall>k. Suc k < length (runs ts) \<longrightarrow>
      turn_role (hd (runs ts ! k)) \<noteq> turn_role (hd (runs ts ! Suc k))) \<and>
   (history \<noteq> [] \<and> (\<forall>m \<in> set history. msg_role m = User \<or> msg_role m = Narrator) \<longrightarrow>
      normalizeGeminiHistory history =
        [\<lparr>turn_role = ''user'', turn_parts = concat (map (\<lambda>m. turn_parts (toTurn m)) history)\<rparr>])"
proof (intro conjI impI allI ballI)
  show "normalizeGeminiHistory history =
      map collapse (runs (map toTurn (filter isRelevant history)))"
    by (rule normalizeGeminiHistory_collapse)
  show "concat (runs ts) = ts" by (rule concat_runs)
  show "r \<noteq> []" if "r \<in> set (runs ts)" for r using that by (rule runs_nonempty)
  show "turn_role t = turn_role (hd r)" if "r \<in> set (runs ts)" "t \<in> set r" for r t
    using that by (rule runs_same_role)
  show "turn_role (hd (runs ts ! k)) \<noteq> turn_role (hd (runs ts ! Suc k))"
    if "Suc k < length (runs ts)" for k
    using that by (rule runs_adjacent)
next
  assume h: "history \<noteq> [] \<and> (\<forall>m \<in> set history. msg_role m = User \<or> msg_role m = Narrator)"
  then have "\<forall>m \<in> set history. isRelevant m"
    by (auto simp: isRelevant_def)
  then have all: "filter isRelevant history = history"
    by (rule filter_True)
  let ?ts = "map toTurn history"
  have roles: "\<forall>t \<in> set ?ts. turn_role t = ''user''"
    using h by (auto simp: toTurn_def Let_def)
  from h have "?ts \<noteq> []" by simp
  from runs_single_role [OF this roles] have single: "runs ?ts = [?ts]" .
  from h obtain m ms where "history = m # ms" by (cases history) auto
  with roles have "turn_role (hd ?ts) = ''user''" by simp
  then have "collapse ?ts =
      \<lparr>turn_role = ''user'', turn_parts = concat (map (\<lambda>m. turn_parts (toTurn m)) history)\<rparr>"
    by (simp add: collapse_def comp_def)
  moreover have "normalizeGeminiHistory history = [collapse ?ts]"
    by (simp only: normalizeGeminiHistory_collapse all single list.map)
  ultimately show "normalizeGeminiHistory history =
      [\<lparr>turn_role = ''user'', turn_parts = concat (map (\<lambda>m. turn_parts (toTurn m)) history)\<rparr>]"
    by simp
qed

theorem normalizeGeminiHistory_merges_runs_witness:
  "normalizeGeminiHistory
     [\<lparr>msg_role = User, msg_content = ''hi'', msg_attachment = None\<rparr>,
      \<lparr>msg_role = User, msg_content = ''there'', msg_attachment = None\<rparr>,
      \<lparr>msg_role = Narrator, msg_content = ''rain'', msg_attachment = None\<rparr>] =
   [\<lparr>turn_role = ''user'',
      turn_parts = [TextPart ''hi'', TextPart ''there'', TextPart ''[NARRATOR]: rain'']\<rparr>]"
proof -
  let ?h = "[\<lparr>msg_role = User, msg_content = ''hi'', msg_attachment = None\<rparr>,
      \<lparr>msg_role = User, msg_content = ''there'', msg_attachment = None\<rparr>,
      \<lparr>msg_role = Narrator, msg_content = ''rain'', msg_attachment = None\<rparr>]"
  have h: "?h \<noteq> [] \<and> (\<forall>m \<in> set ?h. msg_role m = User \<or> msg_role m = Narrator)"
    by simp
  have ws: "\<not> isWhiteSpace (CHR ''h'')" "\<not> isWhiteSpace (CHR ''t'')" "\<not> isWhiteSpace (CHR ''['')"
    "\<not> isWhiteSpace (CHR ''i'')" "\<not> isWhiteSpace (CHR ''e'')" "\<not> isWhiteSpace (CHR ''n'')"
    by (simp_all add: isWhiteSpace_def)
  from normalizeGeminiHistory_merges_runs [of ?h "[]"] h
  have "normalizeGeminiHistory ?h =
        [\<lparr>turn_role = ''user'', turn_parts = concat (map (\<lambda>m. turn_parts (toTurn m)) ?h)\<rparr>]"
    by blast
  then show ?thesis by (simp add: toTurn_def trim_def ws)
qed


section \<open>Properties of streaming generation\<close>

text \<open>
  C9, as stated, fails on the Gemini path: its chunk for a failure is not a bracketed
  \<open>[Error: ...]\<close> marker. With no API key configured the only chunk delivered is the
  sentence beginning \<open>Sorry, an error occurred with the Gemini API\<close>.
\<close>

theorem streamGemini_failure_not_bracketed:
  "streamGeminiChatResponse (\<lambda>k request. Inr []) (\<lambda>k. 0) None
     \<lparr>char_apiConfig = None, thinkingEnabled = False, searchEnabled = False,
      char_embeddingConfig = None, knowledgeSourceIds = None\<rparr>
     ''Be brief.'' [\<lparr>msg_role = User, msg_content = ''hi'', msg_attachment = None\<rparr>] fresh =
   (Inr (),
    [''Sorry, an error occurred with the Gemini API: Default Gemini API key not configured. Please set a custom API key for the character or plugin.''],
    fresh) \<and>
   \<not> startsWith
     ''Sorry, an error occurred with the Gemini API: Default Gemini API key not configured. Please set a custom API key for the character or plugin.''
     ''[Error: ''"
  by (simp add: streamGeminiChatResponse_def streamGemini_try_def getAiClient_def defaultAi_def
      startsWith_def)

text \<open>
  C9, amended: neither streaming path throws. When generation fails, the chunks delivered
  before the failure are followed by exactly one final chunk that describes it, and the
  call completes normally; the chunk is \<open>[Error: <message>]\<close> on the OpenAI-compatible
  path and \<open>Sorry, an error occurred with the Gemini API: <message>\<close> on the Gemini
  path. When generation does not fail, no such chunk is added.
\<close>

theorem stream_failure_becomes_final_chunk:
  "(\<exists>delivered s'.
      streamOpenAIChatResponse fetch random deltaContent config systemInstruction history s =
        (Inr (), delivered, s')) \<and>
   (streamOpenAI_try fetch random deltaContent config systemInstruction history s =
      (Inl error, before, s1) \<longrightarrow>
    streamOpenAIChatResponse fetch random deltaContent config systemInstruction history s =
      (Inr (),
       before @ [''[Error: '' @ (case error of JsError m \<Rightarrow> m | StatusError m st \<Rightarrow> m
                             | _ \<Rightarrow> String_of error) @ '']''],
       s1)) \<and>
   (streamOpenAI_try fetch random deltaContent config systemInstruction history s =
      (Inr (), before, s1) \<longrightarrow>
    streamOpenAIChatResponse fetch random deltaContent config systemInstruction history s =
      (Inr (), before, s1)) \<and>
   (\<exists>delivered s'.
      streamGeminiChatResponse generateContentStream random API_KEY character systemInstruction
        history s = (Inr (), delivered, s')) \<and>
   (streamGemini_try generateContentStream random API_KEY character systemInstruction history s =
      (Inl error, before, s1) \<longrightarrow>
    streamGeminiChatResponse generateContentStream random API_KEY character systemInstruction
      history s =
      (Inr (),
       before @ [''Sorry, an error occurred with the Gemini API: '' @
                 (case error of JsError m \<Rightarrow> m | StatusError m st \<Rightarrow> m
                | _ \<Rightarrow> ''An unknown error occurred.'')],
       s1)) \<and>
   (streamGemini_try generateContentStream random API_KEY character systemInstruction history s =
      (Inr (), before, s1) \<longrightarrow>
    streamGeminiChatResponse generateContentStream random API_KEY character systemInstruction
      history s = (Inr (), before, s1))"
proof -
  obtain r1 d1 t1 where o:
    "streamOpenAI_try fetch random deltaContent config systemInstruction history s = (r1, d1, t1)"
    by (cases "streamOpenAI_try fetch random deltaContent config systemInstruction history s")
  obtain r2 d2 t2 where g:
    "streamGemini_try generateContentStream random API_KEY character systemInstruction history s =
       (r2, d2, t2)"
    by (cases "streamGemini_try generateContentStream random API_KEY character systemInstruction
          history s")
  show ?thesis
    unfolding streamOpenAIChatResponse_def streamGeminiChatResponse_def o g
    by (cases r1; cases r2) simp_all
qed


theorem stream_failure_becomes_final_chunk_witness:
  "streamOpenAIChatResponse
     (\<lambda>k request. Inr \<lparr>status = 500, responseText = Inr ''down'', body = None\<rparr>)
     (\<lambda>k. 0) Some
     \<lparr>cfg_service = ''openai'', cfg_apiKey = None,
      cfg_apiEndpoint = Some ''http://localhost:11434/v1/chat/completions'', cfg_model = None\<rparr>
     ''Be brief.'' [\<lparr>msg_role = User, msg_content = ''hi'', msg_attachment = None\<rparr>] fresh =
     (Inr (), [''[Error: OpenAI API Error: 500 - down]''],
      \<lparr>calls = 1, randoms = 0, slept = []\<rparr>) \<and>
   streamGeminiChatResponse
     (\<lambda>k request. Inr [Inr (Some ''Hel''), Inl (JsError ''reset''), Inr (Some ''lo'')])
     (\<lambda>k. 0) (Some ''key'')
     \<lparr>char_apiConfig = None, thinkingEnabled = False, searchEnabled = False,
      char_embeddingConfig = None, knowledgeSourceIds = None\<rparr>
     ''Be brief.'' [\<lparr>msg_role = User, msg_content = ''hi'', msg_attachment = None\<rparr>] fresh =
     (Inr (), [''Hel'', ''Sorry, an error occurred with the Gemini API: reset''],
      \<lparr>calls = 1, randoms = 0, slept = []\<rparr>)"
proof -
  let ?fetch = "\<lambda>(k::nat) (request::chat_request).
      Inr \<lparr>status = 500, responseText = Inr ''down'', body = None\<rparr> :: thrown + response"
  let ?config = "\<lparr>cfg_service = ''openai'', cfg_apiKey = None,
      cfg_apiEndpoint = Some ''http://localhost:11434/v1/chat/completions'', cfg_model = None\<rparr>"
  let ?history = "[\<lparr>msg_role = User, msg_content = ''hi'', msg_attachment = None\<rparr>]"
  let ?gen = "\<lambda>(k::nat) (request::gemini_request).
      Inr [Inr (Some ''Hel''), Inl (JsError ''reset''), Inr (Some ''lo'')]
        :: thrown + (thrown + string option) list"
  let ?character = "\<lparr>char_apiConfig = None, thinkingEnabled = False, searchEnabled = False,
      char_embeddingConfig = None, knowledgeSourceIds = None\<rparr>"
  let ?s1 = "\<lparr>calls = 1, randoms = 0, slept = []\<rparr>"
  have dec: "decimal 500 = ''500''" by code_simp
  have o: "streamOpenAI_try ?fetch (\<lambda>k. 0) Some ?config ''Be brief.'' ?history fresh =
      (Inl (JsError ''OpenAI API Error: 500 - down''), [], ?s1)"
    by (simp add: streamOpenAI_try_def fetchWithRetry_def withRetry_def withRetry_loop.simps
        fetchAttempt_def ok_def fresh_def dec)
  have ws: "\<not> isWhiteSpace (CHR ''h'')" "\<not> isWhiteSpace (CHR ''i'')"
    by (simp_all add: isWhiteSpace_def)
  have n: "normalizeGeminiHistory ?history = [\<lparr>turn_role = ''user'', turn_parts = [TextPart ''hi'']\<rparr>]"
    by (simp add: normalizeGeminiHistory_def isRelevant_def toTurn_def trim_def ws)
  have g: "streamGemini_try ?gen (\<lambda>k. 0) (Some ''key'') ?character ''Be brief.'' ?history fresh =
      (Inl (JsError ''reset''), [''Hel''], ?s1)"
    by (simp add: streamGemini_try_def getAiClient_def defaultAi_def n withRetry_def
        withRetry_loop.simps fresh_def)
  from stream_failure_becomes_final_chunk
    [of ?fetch "\<lambda>k. 0" Some ?config "''Be brief.''" ?history fresh
      "JsError ''OpenAI API Error: 500 - down''" "[]" ?s1] o
  have "streamOpenAIChatResponse ?fetch (\<lambda>k. 0) Some ?config ''Be brief.'' ?history fresh =
      (Inr (), [''[Error: OpenAI API Error: 500 - down]''], ?s1)"
    by simp
  moreover from stream_failure_becomes_final_chunk
    [of _ "\<lambda>k. 0" _ _ "''Be brief.''" ?history fresh "JsError ''reset''" "[''Hel'']" ?s1
      ?gen "Some ''key''" ?character] g
  have "streamGeminiChatResponse ?gen (\<lambda>k. 0) (Some ''key'') ?character ''Be brief.'' ?history fresh =
      (Inr (), [''Hel'', ''Sorry, an error occurred with the Gemini API: reset''], ?s1)"
    by simp
  ultimately show ?thesis by simp
qed


section \<open>Properties of indexing and retrieval\<close>

text \<open>
  If the embedding of chunk \<open>n\<close> of the list fails when its turn comes, the loop stops at
  the first failing chunk with the error naming its index, and adds no save call.
\<close>

lemma embed_loop_first_failure:
  assumes "n < length chunks"
    and "isl (generateEmbedding env (embedCalls s + n) (chunks ! n) cfg)"
  shows "\<exists>first s'. first \<le> n \<and>
      isl (generateEmbedding env (embedCalls s + first) (chunks ! first) cfg) \<and>
      (\<forall>j<first. \<not> isl (generateEmbedding env (embedCalls s + j) (chunks ! j) cfg)) \<and>
      embed_loop env cfg sourceId len i chunks acc s =
        (Inl (JsError (''Failed to process chunk '' @ decimal (i + first + 1) @
                       ''. Check embedding API settings.'')), s') \<and>
      filter isSave (effects s') = filter isSave (effects s)"
  using assms
proof (induction chunks arbitrary: n i acc s)
  case Nil
  then show ?case by simp
next
  case (Cons chunk rest)
  let ?s1 = "s\<lparr>effects := effects s @
                 [Progress (''Generating embedding for chunk '' @ decimal (i + 1) @ '' of '' @
                            decimal len @ ''...''),
                  GenerateEmbedding chunk cfg],
               embedCalls := embedCalls s + 1\<rparr>"
  show ?case
  proof (cases "generateEmbedding env (embedCalls s) chunk cfg")
    case (Inl error)
    then have "embed_loop env cfg sourceId len i (chunk # rest) acc s =
        (Inl (JsError (''Failed to process chunk '' @ decimal (i + 0 + 1) @
                       ''. Check embedding API settings.'')), ?s1)"
      by simp
    moreover have "filter isSave (effects ?s1) = filter isSave (effects s)" by simp
    moreover have "isl (generateEmbedding env (embedCalls s + 0) ((chunk # rest) ! 0) cfg)"
      using Inl by simp
    ultimately show ?thesis by blast
  next
    case (Inr embedding)
    let ?acc = "acc @ [\<lparr>chunk_id = ''chunk-'' @ randomUUID env (uuids ?s1),
                    chunk_sourceId = sourceId, chunk_content = chunk,
                    chunk_embedding = embedding\<rparr>]"
    let ?s2 = "?s1\<lparr>uuids := uuids ?s1 + 1\<rparr>"
    have step: "embed_loop env cfg sourceId len i (chunk # rest) acc s =
        embed_loop env cfg sourceId len (i + 1) rest ?acc ?s2"
      using Inr by simp
    from Inr Cons.prems(2) obtain m where n: "n = Suc m"
      by (cases n) auto
    with Cons.prems have m: "m < length rest"
      and fails: "isl (generateEmbedding env (embedCalls ?s2 + m) (rest ! m) cfg)"
      by simp_all
    from Cons.IH [OF m fails, of "i + 1" ?acc]
    obtain first s' where first: "first \<le> m"
      "isl (generateEmbedding env (embedCalls ?s2 + first) (rest ! first) cfg)"
      "\<forall>j<first. \<not> isl (generateEmbedding env (embedCalls ?s2 + j) (rest ! j) cfg)"
      "embed_loop env cfg sourceId len (i + 1) rest ?acc ?s2 =
        (Inl (JsError (''Failed to process chunk '' @ decimal (i + 1 + first + 1) @
                       ''. Check embedding API settings.'')), s')"
      "filter isSave (effects s') = filter isSave (effects ?s2)"
      by blast
    have "Suc first \<le> n" using first(1) n by simp
    moreover have "isl (generateEmbedding env (embedCalls s + Suc first)
        ((chunk # rest) ! Suc first) cfg)"
      using first(2) by simp
    moreover have "\<forall>j<Suc first. \<not> isl (generateEmbedding env (embedCalls s + j)
        ((chunk # rest) ! j) cfg)"
    proof (intro allI impI)
      fix j assume "j < Suc first"
      then show "\<not> isl (generateEmbedding env (embedCalls s + j) ((chunk # rest) ! j) cfg)"
        using first(3) Inr by (cases j) simp_all
    qed
    moreover have "embed_loop env cfg sourceId len i (chunk # rest) acc s =
        (Inl (JsError (''Failed to process chunk '' @ decimal (i + Suc first + 1) @
                       ''. Check embedding API settings.'')), s')"
      using step first(4) by simp
    moreover have "filter isSave (effects s') = filter isSave (effects s)"
      using first(5) by simp
    ultimately show ?thesis by blast
  qed
qed

text \<open>
  C7: if generating the embedding fails for any chunk of the file, the indexing job fails
  with the error \<open>Failed to process chunk k. Check embedding API settings.\<close>, where \<open>k\<close>
  is the (1-based) index of the first chunk whose embedding fails, and the job makes no
  call to \<^verbatim>\<open>db.saveVectorChunks\<close>: the save calls recorded after the job are those
  recorded before it.
\<close>

theorem processAndIndexFile_embedding_failure:
  assumes "file_text file = Inr content"
    and "chunkText content 1000 200 = Some textChunks"
    and "i < length textChunks"
    and "isl (generateEmbedding env (embedCalls s + i) (textChunks ! i) embeddingConfig)"
  shows "\<exists>first s'. first \<le> i \<and>
      isl (generateEmbedding env (embedCalls s + first) (textChunks ! first) embeddingConfig) \<and>
      (\<forall>j<first. \<not> isl (generateEmbedding env (embedCalls s + j) (textChunks ! j)
                           embeddingConfig)) \<and>
      processAndIndexFile env file embeddingConfig s =
        Some (Inl (JsError (''Failed to process chunk '' @ decimal (first + 1) @
                            ''. Check embedding API settings.'')), s') \<and>
      filter isSave (effects s') = filter isSave (effects s)"
proof -
  let ?s2 = "s\<lparr>uuids := uuids s + 1,
      effects := effects s @ [Progress (''Reading file: '' @ file_name file @ ''...''),
                              Progress ''Chunking text...'']\<rparr>"
  have fails: "isl (generateEmbedding env (embedCalls ?s2 + i) (textChunks ! i) embeddingConfig)"
    using assms(4) by simp
  from embed_loop_first_failure [OF assms(3) fails,
      of "''source-'' @ randomUUID env (uuids s)" "length textChunks" 0 "[]"]
  obtain first s' where first: "first \<le> i"
    "isl (generateEmbedding env (embedCalls ?s2 + first) (textChunks ! first) embeddingConfig)"
    "\<forall>j<first. \<not> isl (generateEmbedding env (embedCalls ?s2 + j) (textChunks ! j)
        embeddingConfig)"
    "embed_loop env embeddingConfig (''source-'' @ randomUUID env (uuids s))
        (length textChunks) 0 textChunks [] ?s2 =
      (Inl (JsError (''Failed to process chunk '' @ decimal (0 + first + 1) @
                     ''. Check embedding API settings.'')), s')"
    "filter isSave (effects s') = filter isSave (effects ?s2)"
    by blast
  have "processAndIndexFile env file embeddingConfig s =
        Some (Inl (JsError (''Failed to process chunk '' @ decimal (first + 1) @
                            ''. Check embedding API settings.'')), s')"
    using assms(1,2) first(4) by (simp add: processAndIndexFile_def)
  moreover have "filter isSave (effects s') = filter isSave (effects s)"
    using first(5) by simp
  ultimately show ?thesis using first(1,2,3) by auto
qed

theorem processAndIndexFile_embedding_failure_witness:
  "\<exists>s'. processAndIndexFile
      \<lparr>generateEmbedding = (\<lambda>k t c. if k = 1 then Inl (JsError ''quota'') else Inr [1]),
       saveVectorChunks = (\<lambda>v. Inr ()),
       getVectorChunksBySource = (\<lambda>sourceId. Inr []),
       randomUUID = (\<lambda>k. decimal k),
       now = ''2025-01-01T00:00:00.000Z''\<rparr>
      \<lparr>file_name = ''notes.txt'', file_type = ''text/plain'',
       file_text = Inr (replicate 1500 (CHR ''a''))\<rparr>
      \<lparr>emb_service = ''gemini'', emb_apiKey = None, emb_apiEndpoint = None,
       emb_model = ''text-embedding-004''\<rparr>
      \<lparr>effects = [], embedCalls = 0, uuids = 0\<rparr> =
    Some (Inl (JsError ''Failed to process chunk 2. Check embedding API settings.''), s') \<and>
    filter isSave (effects s') = []"
proof -
  let ?env = "\<lparr>generateEmbedding = (\<lambda>(k::nat) (t::string) (c::embeddingConfig).
                   if k = 1 then Inl (JsError ''quota'') else Inr [1::real]),
       saveVectorChunks = (\<lambda>v::vectorChunk list. Inr () :: thrown + unit),
       getVectorChunksBySource = (\<lambda>sourceId::string. Inr [] :: thrown + vectorChunk list),
       randomUUID = (\<lambda>k. decimal k),
       now = ''2025-01-01T00:00:00.000Z''\<rparr>"
  let ?content = "replicate 1500 (CHR ''a'')"
  let ?file = "\<lparr>file_name = ''notes.txt'', file_type = ''text/plain'',
       file_text = Inr ?content\<rparr>"
  let ?cfg = "\<lparr>emb_service = ''gemini'', emb_apiKey = None, emb_apiEndpoint = None,
       emb_model = ''text-embedding-004''\<rparr>"
  let ?s = "\<lparr>effects = [], embedCalls = 0, uuids = 0\<rparr>"
  let ?chunks = "[slice ?content 0 1000, slice ?content 800 1500]"
  have h1: "file_text ?file = Inr ?content" by simp
  have h2: "chunkText ?content 1000 200 = Some ?chunks"
    by (simp add: chunkText_def chunk_loop_step chunk_loop_exit)
  have h3: "1 < length ?chunks" by simp
  have h4: "isl (generateEmbedding ?env (embedCalls ?s + 1) (?chunks ! 1) ?cfg)" by simp
  from processAndIndexFile_embedding_failure [OF h1 h2 h3 h4]
  obtain first s' where first:
    "isl (generateEmbedding ?env (embedCalls ?s + first) (?chunks ! first) ?cfg)"
    "processAndIndexFile ?env ?file ?cfg ?s =
        Some (Inl (JsError (''Failed to process chunk '' @ decimal (first + 1) @
                            ''. Check embedding API settings.'')), s')"
    "filter isSave (effects s') = filter isSave (effects ?s)"
    by blast
  from first(1) have one: "first = 1" by (simp split: if_splits)
  have "decimal (first + 1) = ''2''" unfolding one by code_simp
  with first(2) have "processAndIndexFile ?env ?file ?cfg ?s =
      Some (Inl (JsError ''Failed to process chunk 2. Check embedding API settings.''), s')"
    by simp
  moreover from first(3) have "filter isSave (effects s') = []" by simp
  ultimately show ?thesis by blast
qed

text \<open>
  C6: when the character's \<^verbatim>\<open>knowledgeSourceIds\<close> is absent or empty,
  \<^verbatim>\<open>findRelevantContext\<close> returns \<^verbatim>\<open>null\<close> and leaves the state unchanged: no call to
  the embedding provider (and none to the vector store) is made.
\<close>

theorem findRelevantContext_no_sources:
  assumes "knowledgeSourceIds character = None \<or> knowledgeSourceIds character = Some []"
  shows "findRelevantContext env query character topK s = (Inr None, s)"
  using assms by (auto simp: findRelevantContext_def split: option.splits)

theorem findRelevantContext_no_sources_witness:
  "(knowledgeSourceIds
      \<lparr>char_apiConfig = None, thinkingEnabled = False, searchEnabled = False,
       char_embeddingConfig = Some \<lparr>emb_service = ''gemini'', emb_apiKey = None,
         emb_apiEndpoint = None, emb_model = ''text-embedding-004''\<rparr>,
       knowledgeSourceIds = Some []\<rparr> = None \<or>
    knowledgeSourceIds
      \<lparr>char_apiConfig = None, thinkingEnabled = False, searchEnabled = False,
       char_embeddingConfig = Some \<lparr>emb_service = ''gemini'', emb_apiKey = None,
         emb_apiEndpoint = None, emb_model = ''text-embedding-004''\<rparr>,
       knowledgeSourceIds = Some []\<rparr> = Some []) \<and>
   findRelevantContext
     \<lparr>generateEmbedding = (\<lambda>k t c. Inr [1, 0]),
      saveVectorChunks = (\<lambda>v. Inr ()),
      getVectorChunksBySource = (\<lambda>sourceId. Inr []),
      randomUUID = (\<lambda>k. decimal k),
      now = ''2025-01-01T00:00:00.000Z''\<rparr>
     ''Who rules the north?''
     \<lparr>char_apiConfig = None, thinkingEnabled = False, searchEnabled = False,
      char_embeddingConfig = Some \<lparr>emb_service = ''gemini'', emb_apiKey = None,
        emb_apiEndpoint = None, emb_model = ''text-embedding-004''\<rparr>,
      knowledgeSourceIds = Some []\<rparr>
     3 \<lparr>effects = [], embedCalls = 0, uuids = 0\<rparr> =
   (Inr None, \<lparr>effects = [], embedCalls = 0, uuids = 0\<rparr>)"
proof -
  let ?character = "\<lparr>char_apiConfig = None, thinkingEnabled = False, searchEnabled = False,
       char_embeddingConfig = Some \<lparr>emb_service = ''gemini'', emb_apiKey = None,
         emb_apiEndpoint = None, emb_model = ''text-embedding-004''\<rparr>,
       knowledgeSourceIds = Some []\<rparr>"
  have h: "knowledgeSourceIds ?character = None \<or> knowledgeSourceIds ?character = Some []"
    by simp
  from findRelevantContext_no_sources [OF h] h show ?thesis by blast
qed

text \<open>
  C10: when the character has no \<^verbatim>\<open>embeddingConfig\<close>, \<^verbatim>\<open>findRelevantContext\<close> returns
  \<^verbatim>\<open>null\<close> and leaves the state unchanged, whatever \<^verbatim>\<open>knowledgeSourceIds\<close> is: no call
  to the embedding provider or to the vector store is made.
\<close>

theorem findRelevantContext_no_embeddingConfig:
  assumes "char_embeddingConfig character = None"
  shows "findRelevantContext env query character topK s = (Inr None, s)"
  using assms by (simp add: findRelevantContext_def)

theorem findRelevantContext_no_embeddingConfig_witness:
  "char_embeddingConfig
      \<lparr>char_apiConfig = None, thinkingEnabled = False, searchEnabled = False,
       char_embeddingConfig = None, knowledgeSourceIds = Some [''source-1'', ''source-2'']\<rparr> =
     None \<and>
   findRelevantContext
     \<lparr>generateEmbedding = (\<lambda>k t c. Inr [1, 0]),
      saveVectorChunks = (\<lambda>v. Inr ()),
      getVectorChunksBySource = (\<lambda>sourceId. Inr []),
      randomUUID = (\<lambda>k. decimal k),
      now = ''2025-01-01T00:00:00.000Z''\<rparr>
     ''Who rules the north?''
     \<lparr>char_apiConfig = None, thinkingEnabled = False, searchEnabled = False,
      char_embeddingConfig = None, knowledgeSourceIds = Some [''source-1'', ''source-2'']\<rparr>
     3 \<lparr>effects = [], embedCalls = 0, uuids = 0\<rparr> =
   (Inr None, \<lparr>effects = [], embedCalls = 0, uuids = 0\<rparr>)"
proof -
  let ?character = "\<lparr>char_apiConfig = None, thinkingEnabled = False, searchEnabled = False,
       char_embeddingConfig = None, knowledgeSourceIds = Some [''source-1'', ''source-2'']\<rparr>"
  have h: "char_embeddingConfig ?character = None" by simp
  from findRelevantContext_no_embeddingConfig [OF h] h show ?thesis by blast
qed

text \<open>A retrieval that does reach the provider and the store, for comparison.\<close>

lemma findRelevantContext_example:
  "findRelevantContext
     \<lparr>generateEmbedding = (\<lambda>k t c. Inr [1, 0]),
      saveVectorChunks = (\<lambda>v. Inr ()),
      getVectorChunksBySource = (\<lambda>sourceId.
        Inr [\<lparr>chunk_id = ''c1'', chunk_sourceId = sourceId, chunk_content = ''east'',
               chunk_embedding = [0, 1]\<rparr>,
             \<lparr>chunk_id = ''c2'', chunk_sourceId = sourceId, chunk_content = ''north'',
               chunk_embedding = [2, 0]\<rparr>]),
      randomUUID = (\<lambda>k. decimal k),
      now = ''2025-01-01T00:00:00.000Z''\<rparr>
     ''Who rules the north?''
     \<lparr>char_apiConfig = None, thinkingEnabled = False, searchEnabled = False,
      char_embeddingConfig = Some \<lparr>emb_service = ''gemini'', emb_apiKey = None,
        emb_apiEndpoint = None, emb_model = ''text-embedding-004''\<rparr>,
      knowledgeSourceIds = Some [''source-1'']\<rparr>
     1 \<lparr>effects = [], embedCalls = 0, uuids = 0\<rparr> =
   (Inr (Some ''north''),
    \<lparr>effects = [GenerateEmbedding ''Who rules the north?''
                   \<lparr>emb_service = ''gemini'', emb_apiKey = None,
                    emb_apiEndpoint = None, emb_model = ''text-embedding-004''\<rparr>,
                 GetVectorChunksBySource ''source-1''],
     embedCalls = 1, uuids = 0\<rparr>)"
  by (simp add: findRelevantContext_def calculateCosineSimilarity_def slice_def)

end
